theory Spec2Isabelle
  imports Complex_Main
begin

section \<open>Data model\<close>

text \<open>
  The two scripts \<^verbatim>\<open>simulacionDosCuerpos2D.py\<close> and \<^verbatim>\<open>simulacionCuatroCuerpos2D.py\<close>
  share one physics engine: the class \<^verbatim>\<open>Body\<close> and the functions \<^verbatim>\<open>accelerations\<close>,
  \<^verbatim>\<open>step_verlet\<close> and \<^verbatim>\<open>to_com_frame\<close> are the same text in both. The embedding below
  is of that common text.

  Floating-point numbers are modelled as the reals (exact arithmetic): rounding, overflow
  to infinity and not-a-number values are outside the model. The one exception is the
  section on binary64 arithmetic, which embeds the force evaluator a second time with the
  rounding of every operation written out. A numpy array of two floats is a \<open>vec2\<close>;
  \<open>c0\<close> and \<open>c1\<close> are the components \<^verbatim>\<open>[0]\<close> and \<^verbatim>\<open>[1]\<close>.
\<close>

datatype vec2 = Vec2 (c0: real) (c1: real)

instantiation vec2 :: real_vector
begin

definition zero_vec2 :: vec2 where
  "zero_vec2 = Vec2 0 0"

definition plus_vec2 :: "vec2 \<Rightarrow> vec2 \<Rightarrow> vec2" where
  "plus_vec2 p q = Vec2 (c0 p + c0 q) (c1 p + c1 q)"

definition minus_vec2 :: "vec2 \<Rightarrow> vec2 \<Rightarrow> vec2" where
  "minus_vec2 p q = Vec2 (c0 p - c0 q) (c1 p - c1 q)"

definition uminus_vec2 :: "vec2 \<Rightarrow> vec2" where
  "uminus_vec2 p = Vec2 (- c0 p) (- c1 p)"

definition scaleR_vec2 :: "real \<Rightarrow> vec2 \<Rightarrow> vec2" where
  "scaleR_vec2 k p = Vec2 (k * c0 p) (k * c1 p)"

instance
  by standard
    (simp_all add: zero_vec2_def plus_vec2_def minus_vec2_def uminus_vec2_def
      scaleR_vec2_def algebra_simps)

end

text \<open>
  The fields of \<^verbatim>\<open>Body\<close> that the engine reads and writes. The fields \<^verbatim>\<open>color\<close> and
  \<^verbatim>\<open>trail\<close> belong to the animation and are left out. A system is a Python list of
  distinct \<^verbatim>\<open>Body\<close> objects, each owning its three arrays (the constructor allocates
  them), so the in-place array updates of the source are updates of one record of the
  list.
\<close>

record body =
  r :: vec2
  v :: vec2
  m :: real
  a :: vec2

text \<open>The exceptions the engine can raise on real-valued input.\<close>

datatype py_error = ZeroDivisionError | ValueError

text \<open>
  \<^verbatim>\<open>Body.__init__(self, x, y, vx, vy, m, color)\<close>: stores the arguments and a zero
  acceleration. There is no check and no \<^verbatim>\<open>raise\<close> in it.
\<close>

definition Body_init :: "real \<Rightarrow> real \<Rightarrow> real \<Rightarrow> real \<Rightarrow> real \<Rightarrow> py_error + body" where
  "Body_init x y vx vy mass =
     Inr \<lparr>r = Vec2 x y, v = Vec2 vx vy, m = mass, a = Vec2 0 0\<rparr>"

text \<open>
  The body list of a scenario (\<^verbatim>\<open>setup_two_bodies\<close>, \<^verbatim>\<open>setup_four_bodies\<close>) is a list
  literal of constructor calls, evaluated left to right; an exception in one of them would
  abort the construction.
\<close>

fun build_bodies :: "(real \<times> real \<times> real \<times> real \<times> real) list \<Rightarrow> py_error + body list" where
  "build_bodies [] = Inr []"
| "build_bodies ((x, y, vx, vy, mass) # rest) =
     (case Body_init x y vx vy mass of
        Inl e \<Rightarrow> Inl e
      | Inr b \<Rightarrow> (case build_bodies rest of Inl e \<Rightarrow> Inl e | Inr bs \<Rightarrow> Inr (b # bs)))"

text \<open>Python's \<^verbatim>\<open>sum\<close>: a left fold of \<open>+\<close> from 0.\<close>

definition py_sum :: "'a::monoid_add list \<Rightarrow> 'a" where
  "py_sum xs = foldl (+) 0 xs"

section \<open>Frame normalizer\<close>

text \<open>
  \<^verbatim>\<open>to_com_frame(bodies)\<close>. On the empty list both sums are the integer 0 and the
  division \<^verbatim>\<open>0 / 0\<close> raises \<^verbatim>\<open>ZeroDivisionError\<close>. On a non-empty list \<^verbatim>\<open>M\<close> is a float
  and the divisions are numpy divisions of an array by a scalar, which do not raise; what
  numpy returns for a zero total mass is outside the model, and the theorems about the
  positions and velocities of the result assume the total mass positive.
\<close>

definition to_com_frame :: "body list \<Rightarrow> py_error + body list" where
  "to_com_frame bodies =
     (if bodies = [] then Inl ZeroDivisionError
      else
        let M = py_sum (map m bodies);
            r_com = py_sum (map (\<lambda>b. m b *\<^sub>R r b) bodies) /\<^sub>R M;
            v_com = py_sum (map (\<lambda>b. m b *\<^sub>R v b) bodies) /\<^sub>R M
        in Inr (map (\<lambda>b. b\<lparr>r := r b - r_com, v := v b - v_com\<rparr>) bodies))"

text \<open>The quantities the specification speaks about.\<close>

definition total_mass :: "body list \<Rightarrow> real" where
  "total_mass bodies = (\<Sum>b\<leftarrow>bodies. m b)"

definition mass_moment :: "body list \<Rightarrow> vec2" where
  "mass_moment bodies = (\<Sum>b\<leftarrow>bodies. m b *\<^sub>R r b)"

definition momentum :: "body list \<Rightarrow> vec2" where
  "momentum bodies = (\<Sum>b\<leftarrow>bodies. m b *\<^sub>R v b)"

definition r_com :: "body list \<Rightarrow> vec2" where
  "r_com bodies = mass_moment bodies /\<^sub>R total_mass bodies"

definition v_com :: "body list \<Rightarrow> vec2" where
  "v_com bodies = momentum bodies /\<^sub>R total_mass bodies"

section \<open>Force evaluator\<close>

text \<open>
  A \<^verbatim>\<open>for\<close> loop over a list of indices whose body may raise: the first exception ends
  the loop and is the result.
\<close>

fun for_each :: "nat list \<Rightarrow> (nat \<Rightarrow> 's \<Rightarrow> py_error + 's) \<Rightarrow> 's \<Rightarrow> py_error + 's" where
  "for_each [] f s = Inr s"
| "for_each (i # rest) f s =
     (case f i s of Inl e \<Rightarrow> Inl e | Inr s' \<Rightarrow> for_each rest f s')"

text \<open>
  The body of the inner loop of \<^verbatim>\<open>accelerations\<close>, for the pair \<open>(i, j)\<close>; \<open>ri\<close> and \<open>mi\<close>
  were read before the inner loop began. The module constants \<^verbatim>\<open>G\<close> and \<^verbatim>\<open>EPS2\<close> (1.0
  and 1e-3 in both scripts) are parameters here. \<^verbatim>\<open>math.sqrt\<close> raises \<^verbatim>\<open>ValueError\<close> on a
  negative argument, and the float division \<^verbatim>\<open>1.0 / math.sqrt(dist2)\<close> raises
  \<^verbatim>\<open>ZeroDivisionError\<close> on a zero divisor. The divisions \<^verbatim>\<open>fvec / mi\<close> and \<^verbatim>\<open>fvec / mj\<close>
  are numpy divisions of an array by a scalar and do not raise. Here they are exact
  divisions of reals, where the source stores the quotient rounded to binary64; and at a
  zero mass, where numpy returns infinities or not-a-number, the quotient here is the
  zero vector. The model is that of the source on systems whose masses are not zero, up
  to rounding. The theorems on linear momentum, on the product of mass and acceleration
  and on the bound of the accelerations assume the masses positive; those on the value
  of the accelerations and of the integrator step have no hypothesis on the masses, and
  at a zero mass they describe this model only.
\<close>

definition pair_update ::
  "real \<Rightarrow> real \<Rightarrow> nat \<Rightarrow> vec2 \<Rightarrow> real \<Rightarrow> nat \<Rightarrow> body list \<Rightarrow> py_error + body list" where
  "pair_update G EPS2 i ri mi j bodies =
     (let rj = r (bodies ! j);
          mj = m (bodies ! j);
          dr = rj - ri;
          dist2 = c0 dr * c0 dr + c1 dr * c1 dr + EPS2
      in if dist2 < 0 then Inl ValueError
         else if sqrt dist2 = 0 then Inl ZeroDivisionError
         else
           let inv_r = 1 / sqrt dist2;
               inv_r3 = inv_r / dist2;
               fvec = inv_r3 *\<^sub>R ((G * mi * mj) *\<^sub>R dr);
               bodies1 = bodies[i := (bodies ! i)\<lparr>a := a (bodies ! i) + fvec /\<^sub>R mi\<rparr>];
               bodies2 = bodies1[j := (bodies1 ! j)\<lparr>a := a (bodies1 ! j) - fvec /\<^sub>R mj\<rparr>]
           in Inr bodies2)"

text \<open>
  \<^verbatim>\<open>accelerations(bodies)\<close>: zero every acceleration, then visit the pairs
  \<^verbatim>\<open>for i in range(N - 1): for j in range(i + 1, N)\<close>. For the empty list
  \<^verbatim>\<open>range(-1)\<close> is empty, as \<open>[0..<0 - 1]\<close> is on the natural numbers.
\<close>

definition accelerations :: "real \<Rightarrow> real \<Rightarrow> body list \<Rightarrow> py_error + body list" where
  "accelerations G EPS2 bodies =
     (let bodies0 = map (\<lambda>b. b\<lparr>a := 0\<rparr>) bodies;
          N = length bodies0
      in for_each [0..<N - 1]
           (\<lambda>i bs. let ri = r (bs ! i); mi = m (bs ! i)
                   in for_each [i + 1..<N] (pair_update G EPS2 i ri mi) bs)
           bodies0)"

section \<open>Integrator\<close>

text \<open>\<^verbatim>\<open>step_verlet(bodies, dt)\<close>: two force evaluations and two loops over the bodies.\<close>

definition step_verlet :: "real \<Rightarrow> real \<Rightarrow> body list \<Rightarrow> real \<Rightarrow> py_error + body list" where
  "step_verlet G EPS2 bodies dt =
     (case accelerations G EPS2 bodies of
        Inl e \<Rightarrow> Inl e
      | Inr bodies1 \<Rightarrow>
          let bodies2 =
                map (\<lambda>b. let v_half = v b + (0.5 * dt) *\<^sub>R a b
                         in b\<lparr>r := r b + dt *\<^sub>R v_half, v := v_half\<rparr>) bodies1
          in (case accelerations G EPS2 bodies2 of
                Inl e \<Rightarrow> Inl e
              | Inr bodies3 \<Rightarrow>
                  Inr (map (\<lambda>b. b\<lparr>v := v b + (0.5 * dt) *\<^sub>R a b\<rparr>) bodies3)))"

section \<open>Sequences of operations\<close>

text \<open>
  The three operations of the engine, and a run of them in order on one system (the
  scripts run \<^verbatim>\<open>to_com_frame\<close> once and then \<^verbatim>\<open>step_verlet\<close> in a loop). A run stops
  at the first exception.
\<close>

datatype operation = Accelerations | Step real | ToComFrame

fun apply_operation :: "real \<Rightarrow> real \<Rightarrow> operation \<Rightarrow> body list \<Rightarrow> py_error + body list" where
  "apply_operation G EPS2 Accelerations bodies = accelerations G EPS2 bodies"
| "apply_operation G EPS2 (Step dt) bodies = step_verlet G EPS2 bodies dt"
| "apply_operation G EPS2 ToComFrame bodies = to_com_frame bodies"

fun run_operations ::
  "real \<Rightarrow> real \<Rightarrow> operation list \<Rightarrow> body list \<Rightarrow> py_error + body list" where
  "run_operations G EPS2 [] bodies = Inr bodies"
| "run_operations G EPS2 (op # ops) bodies =
     (case apply_operation G EPS2 op bodies of
        Inl e \<Rightarrow> Inl e
      | Inr bodies' \<Rightarrow> run_operations G EPS2 ops bodies')"

section \<open>The force evaluator in binary64 arithmetic\<close>

text \<open>
  A Python float and a numpy \<^verbatim>\<open>float64\<close> are IEEE 754 binary64 numbers, and each of the
  operations \<^verbatim>\<open>+\<close>, \<^verbatim>\<open>-\<close>, \<^verbatim>\<open>*\<close>, \<^verbatim>\<open>/\<close> and \<^verbatim>\<open>math.sqrt\<close> returns the exact result
  rounded to the nearest binary64 number, a tie going to the even significand. The
  sections above leave the rounding out; this section keeps it.

  \<open>rne t\<close> is the integer nearest to \<open>t\<close>, the even one at a tie. A number \<open>x\<close> with
  \<open>2\<^sup>e \<le> |x| < 2\<^sup>e\<^sup>+\<^sup>1\<close> is rounded to a multiple of 2 to the power \<open>e - 52\<close>, and below
  \<open>e = -1022\<close> the spacing stays that of \<open>e = -1022\<close> (the subnormal numbers).
  Overflow to infinity and not-a-number values are not modelled: \<open>f64\<close> is the rounding
  of the results whose magnitude is below 2 to the power 1024.
\<close>

definition rne :: "real \<Rightarrow> int" where
  "rne t = (let f = \<lfloor>t\<rfloor>; d = t - of_int f
            in if d < 1 / 2 then f
               else if 1 / 2 < d then f + 1
               else if even f then f else f + 1)"

definition ulp_exp :: "real \<Rightarrow> int" where
  "ulp_exp x = max \<lfloor>log 2 \<bar>x\<bar>\<rfloor> (- 1022) - 52"

definition f64 :: "real \<Rightarrow> real" where
  "f64 x = (if x = 0 then 0
            else let u = 2 powr of_int (ulp_exp x) in of_int (rne (x / u)) * u)"

text \<open>
  The operations of numpy on arrays of two floats work component by component:
  array plus array, array minus array, scalar times array (and array times scalar, the
  product of two floats being commutative), array over scalar.
\<close>

definition add_f64 :: "vec2 \<Rightarrow> vec2 \<Rightarrow> vec2" where
  "add_f64 p q = Vec2 (f64 (c0 p + c0 q)) (f64 (c1 p + c1 q))"

definition sub_f64 :: "vec2 \<Rightarrow> vec2 \<Rightarrow> vec2" where
  "sub_f64 p q = Vec2 (f64 (c0 p - c0 q)) (f64 (c1 p - c1 q))"

definition scale_f64 :: "real \<Rightarrow> vec2 \<Rightarrow> vec2" where
  "scale_f64 k p = Vec2 (f64 (k * c0 p)) (f64 (k * c1 p))"

definition div_f64 :: "vec2 \<Rightarrow> real \<Rightarrow> vec2" where
  "div_f64 p k = Vec2 (f64 (c0 p / k)) (f64 (c1 p / k))"

text \<open>
  The body of the inner loop of \<^verbatim>\<open>accelerations\<close> and the function itself once more,
  operation by operation in the order of the source, every result rounded:
  \<^verbatim>\<open>dr[0]*dr[0] + dr[1]*dr[1] + EPS2\<close> and \<^verbatim>\<open>G * mi * mj * dr * inv_r3\<close> associate to the
  left, and \<^verbatim>\<open>+=\<close> and \<^verbatim>\<open>-=\<close> are a sum and a difference of arrays. The positions, the
  masses and the two constants are taken to be binary64 numbers already. As in
  \<open>pair_update\<close>, what numpy returns for a zero mass is not modelled.
\<close>

definition pair_update_f64 ::
  "real \<Rightarrow> real \<Rightarrow> nat \<Rightarrow> vec2 \<Rightarrow> real \<Rightarrow> nat \<Rightarrow> body list \<Rightarrow> py_error + body list" where
  "pair_update_f64 G EPS2 i ri mi j bodies =
     (let rj = r (bodies ! j);
          mj = m (bodies ! j);
          dr = sub_f64 rj ri;
          dist2 = f64 (f64 (f64 (c0 dr * c0 dr) + f64 (c1 dr * c1 dr)) + EPS2)
      in if dist2 < 0 then Inl ValueError
         else if f64 (sqrt dist2) = 0 then Inl ZeroDivisionError
         else
           let inv_r = f64 (1 / f64 (sqrt dist2));
               inv_r3 = f64 (inv_r / dist2);
               fvec = scale_f64 inv_r3 (scale_f64 (f64 (f64 (G * mi) * mj)) dr);
               bodies1 = bodies[i := (bodies ! i)
                           \<lparr>a := add_f64 (a (bodies ! i)) (div_f64 fvec mi)\<rparr>];
               bodies2 = bodies1[j := (bodies1 ! j)
                           \<lparr>a := sub_f64 (a (bodies1 ! j)) (div_f64 fvec mj)\<rparr>]
           in Inr bodies2)"

definition accelerations_f64 :: "real \<Rightarrow> real \<Rightarrow> body list \<Rightarrow> py_error + body list" where
  "accelerations_f64 G EPS2 bodies =
     (let bodies0 = map (\<lambda>b. b\<lparr>a := 0\<rparr>) bodies;
          N = length bodies0
      in for_each [0..<N - 1]
           (\<lambda>i bs. let ri = r (bs ! i); mi = m (bs ! i)
                   in for_each [i + 1..<N] (pair_update_f64 G EPS2 i ri mi) bs)
           bodies0)"

section \<open>The specification's formulas\<close>

text \<open>
  The pair force as the specification writes it: \<open>G m\<^sub>i m\<^sub>j (r\<^sub>j - r\<^sub>i)\<close> over
  \<open>(|r\<^sub>j - r\<^sub>i|\<^sup>2 + EPS2)\<close> to the power 3/2.
\<close>

definition norm_sq :: "vec2 \<Rightarrow> real" where
  "norm_sq p = (c0 p)\<^sup>2 + (c1 p)\<^sup>2"

definition spec_force :: "real \<Rightarrow> real \<Rightarrow> body \<Rightarrow> body \<Rightarrow> vec2" where
  "spec_force G EPS2 bi bj =
     (G * m bi * m bj / (norm_sq (r bj - r bi) + EPS2) powr (3 / 2)) *\<^sub>R (r bj - r bi)"

text \<open>
  The acceleration of body \<open>k\<close> as the specification describes it: over the pairs
  \<open>(k, j)\<close> with \<open>k < j\<close> the force divided by the mass of \<open>k\<close> is added, over the
  pairs \<open>(i, k)\<close> with \<open>i < k\<close> it is subtracted.
\<close>

definition spec_acceleration :: "real \<Rightarrow> real \<Rightarrow> body list \<Rightarrow> nat \<Rightarrow> vec2" where
  "spec_acceleration G EPS2 bodies k =
     (\<Sum>j = k + 1..<length bodies. spec_force G EPS2 (bodies ! k) (bodies ! j) /\<^sub>R m (bodies ! k))
     - (\<Sum>i = 0..<k. spec_force G EPS2 (bodies ! i) (bodies ! k) /\<^sub>R m (bodies ! k))"

text \<open>
  The five stages of the leapfrog step in the specification's order: accelerations at the
  current positions, half-step velocity, full-step position with the half-step velocity,
  accelerations at the new positions, completion of the velocity.
\<close>

definition kick :: "real \<Rightarrow> body list \<Rightarrow> body list" where
  "kick dt bodies = map (\<lambda>b. b\<lparr>v := v b + (0.5 * dt) *\<^sub>R a b\<rparr>) bodies"

definition drift :: "real \<Rightarrow> body list \<Rightarrow> body list" where
  "drift dt bodies = map (\<lambda>b. b\<lparr>r := r b + dt *\<^sub>R v b\<rparr>) bodies"

definition spec_step :: "real \<Rightarrow> real \<Rightarrow> body list \<Rightarrow> real \<Rightarrow> py_error + body list" where
  "spec_step G EPS2 bodies dt =
     (case accelerations G EPS2 bodies of
        Inl e \<Rightarrow> Inl e
      | Inr bodies1 \<Rightarrow>
          (case accelerations G EPS2 (drift dt (kick dt bodies1)) of
             Inl e \<Rightarrow> Inl e
           | Inr bodies2 \<Rightarrow> Inr (kick dt bodies2)))"

section \<open>Auxiliary notions for the proofs\<close>

text \<open>
  A system whose acceleration fields are given by a function of the index; every state of
  the force evaluator's loops has this form.
\<close>

definition set_acc :: "body list \<Rightarrow> (nat \<Rightarrow> vec2) \<Rightarrow> body list" where
  "set_acc B f = map (\<lambda>k. (B ! k)\<lparr>a := f k\<rparr>) [0..<length B]"

text \<open>The value of \<^verbatim>\<open>dist2\<close> and of \<^verbatim>\<open>fvec\<close> for a pair of bodies, as the source computes them.\<close>

definition dist2_of :: "real \<Rightarrow> body \<Rightarrow> body \<Rightarrow> real" where
  "dist2_of EPS2 bi bj =
     c0 (r bj - r bi) * c0 (r bj - r bi) + c1 (r bj - r bi) * c1 (r bj - r bi) + EPS2"

definition src_force :: "real \<Rightarrow> real \<Rightarrow> body \<Rightarrow> body \<Rightarrow> vec2" where
  "src_force G EPS2 bi bj =
     (1 / sqrt (dist2_of EPS2 bi bj) / dist2_of EPS2 bi bj) *\<^sub>R ((G * m bi * m bj) *\<^sub>R (r bj - r bi))"

text \<open>What the visit of the pair \<open>(i, j)\<close> adds to the acceleration of body \<open>k\<close>.\<close>

definition contrib :: "real \<Rightarrow> real \<Rightarrow> body list \<Rightarrow> nat \<Rightarrow> nat \<Rightarrow> nat \<Rightarrow> vec2" where
  "contrib G EPS2 B i j k =
     (if k = i then src_force G EPS2 (B ! i) (B ! j) /\<^sub>R m (B ! i) else 0)
     - (if k = j then src_force G EPS2 (B ! i) (B ! j) /\<^sub>R m (B ! j) else 0)"

text \<open>The sum of the contributions of all pairs \<open>(i, j)\<close> with \<open>i\<close> in \<open>rows\<close> and \<open>i < j\<close>.\<close>

definition pair_sum :: "real \<Rightarrow> real \<Rightarrow> body list \<Rightarrow> nat list \<Rightarrow> nat \<Rightarrow> vec2" where
  "pair_sum G EPS2 B rows k =
     (\<Sum>i\<leftarrow>rows. \<Sum>j\<leftarrow>[Suc i..<length B]. contrib G EPS2 B i j k)"

text \<open>The Euclidean length of a vector.\<close>

definition vec_len :: "vec2 \<Rightarrow> real" where
  "vec_len p = sqrt (norm_sq p)"

text \<open>A function applied to the result of a call that returned, an exception passed on.\<close>

definition map_result :: "('s \<Rightarrow> 't) \<Rightarrow> py_error + 's \<Rightarrow> py_error + 't" where
  "map_result h x = (case x of Inl e \<Rightarrow> Inl e | Inr s \<Rightarrow> Inr (h s))"

text \<open>The translation of one body that \<^verbatim>\<open>to_com_frame\<close> applies: \<open>p\<close> off the position, \<open>q\<close> off the velocity.\<close>

definition shift :: "vec2 \<Rightarrow> vec2 \<Rightarrow> body \<Rightarrow> body" where
  "shift p q b = b\<lparr>r := r b - p, v := v b - q\<rparr>"

section \<open>Basic facts\<close>

lemma foldl_plus_sum_list:
  fixes xs :: "'a::monoid_add list"
  shows "foldl (+) acc xs = acc + sum_list xs"
  by (induction xs arbitrary: acc) (simp_all add: add.assoc)

lemma py_sum_sum_list: "py_sum xs = sum_list xs"
  by (simp add: py_sum_def foldl_plus_sum_list)

lemma to_com_frame_eq:
  "bodies \<noteq> [] \<Longrightarrow>
   to_com_frame bodies =
     Inr (map (\<lambda>b. b\<lparr>r := r b - r_com bodies, v := v b - v_com bodies\<rparr>) bodies)"
  by (simp add: to_com_frame_def Let_def py_sum_sum_list r_com_def v_com_def
      total_mass_def mass_moment_def momentum_def)

lemma sum_list_scaled_shift:
  fixes f :: "'b \<Rightarrow> vec2"
  shows "(\<Sum>b\<leftarrow>bs. w b *\<^sub>R (f b - c)) = (\<Sum>b\<leftarrow>bs. w b *\<^sub>R f b) - (\<Sum>b\<leftarrow>bs. w b) *\<^sub>R c"
  by (induction bs) (simp_all add: algebra_simps)

lemma total_mass_shift:
  "total_mass (map (\<lambda>b. b\<lparr>r := r b - p, v := v b - q\<rparr>) bs) = total_mass bs"
  by (simp add: total_mass_def comp_def)

lemma mass_moment_shift:
  "mass_moment (map (\<lambda>b. b\<lparr>r := r b - p, v := v b - q\<rparr>) bs)
     = mass_moment bs - total_mass bs *\<^sub>R p"
  by (simp add: mass_moment_def total_mass_def comp_def sum_list_scaled_shift)

lemma momentum_shift:
  "momentum (map (\<lambda>b. b\<lparr>r := r b - p, v := v b - q\<rparr>) bs)
     = momentum bs - total_mass bs *\<^sub>R q"
  by (simp add: momentum_def total_mass_def comp_def sum_list_scaled_shift)

lemma mass_moment_com_zero:
  "total_mass bs \<noteq> 0 \<Longrightarrow>
   mass_moment (map (\<lambda>b. b\<lparr>r := r b - r_com bs, v := v b - v_com bs\<rparr>) bs) = 0"
  by (simp add: mass_moment_shift r_com_def)

lemma momentum_com_zero:
  "total_mass bs \<noteq> 0 \<Longrightarrow>
   momentum (map (\<lambda>b. b\<lparr>r := r b - r_com bs, v := v b - v_com bs\<rparr>) bs) = 0"
  by (simp add: momentum_shift v_com_def)

section \<open>The force evaluator in closed form\<close>

lemma length_set_acc [simp]: "length (set_acc B f) = length B"
  by (simp add: set_acc_def)

lemma nth_set_acc [simp]: "k < length B \<Longrightarrow> set_acc B f ! k = (B ! k)\<lparr>a := f k\<rparr>"
  by (simp add: set_acc_def)

lemma dist2_of_pos: "0 < EPS2 \<Longrightarrow> 0 < dist2_of EPS2 bi bj"
proof -
  assume "0 < EPS2"
  moreover have "0 \<le> c0 (r bj - r bi) * c0 (r bj - r bi)" by simp
  moreover have "0 \<le> c1 (r bj - r bi) * c1 (r bj - r bi)" by simp
  ultimately show ?thesis unfolding dist2_of_def by linarith
qed

lemma pair_update_set_acc:
  assumes "0 < EPS2" "i < length B" "j < length B" "i \<noteq> j"
  shows "pair_update G EPS2 i (r (B ! i)) (m (B ! i)) j (set_acc B f)
           = Inr (set_acc B (\<lambda>k. f k + contrib G EPS2 B i j k))"
proof -
  have pos: "0 < dist2_of EPS2 (B ! i) (B ! j)"
    using assms(1) by (rule dist2_of_pos)
  have nneg: "\<not> dist2_of EPS2 (B ! i) (B ! j) < 0" and nz: "sqrt (dist2_of EPS2 (B ! i) (B ! j)) \<noteq> 0"
    using pos by simp_all
  have "pair_update G EPS2 i (r (B ! i)) (m (B ! i)) j (set_acc B f)
      = Inr ((set_acc B f)[i := (B ! i)\<lparr>a := f i + src_force G EPS2 (B ! i) (B ! j) /\<^sub>R m (B ! i)\<rparr>,
                           j := (B ! j)\<lparr>a := f j - src_force G EPS2 (B ! i) (B ! j) /\<^sub>R m (B ! j)\<rparr>])"
    using assms(2-4) nneg nz
    by (simp add: pair_update_def Let_def dist2_of_def src_force_def)
  also have "(set_acc B f)[i := (B ! i)\<lparr>a := f i + src_force G EPS2 (B ! i) (B ! j) /\<^sub>R m (B ! i)\<rparr>,
                           j := (B ! j)\<lparr>a := f j - src_force G EPS2 (B ! i) (B ! j) /\<^sub>R m (B ! j)\<rparr>]
     = set_acc B (\<lambda>k. f k + contrib G EPS2 B i j k)"
    using assms(2-4)
    by (intro nth_equalityI) (auto simp: nth_list_update contrib_def)
  finally show ?thesis .
qed

lemma inner_loop:
  assumes "0 < EPS2" "i < length B" "\<forall>j\<in>set js. j < length B \<and> j \<noteq> i"
  shows "for_each js (pair_update G EPS2 i (r (B ! i)) (m (B ! i))) (set_acc B f)
           = Inr (set_acc B (\<lambda>k. f k + (\<Sum>j\<leftarrow>js. contrib G EPS2 B i j k)))"
  using assms(3)
proof (induction js arbitrary: f)
  case Nil
  then show ?case by simp
next
  case (Cons j js)
  have j: "j < length B" "i \<noteq> j"
    using Cons.prems by auto
  have rest: "\<forall>j\<in>set js. j < length B \<and> j \<noteq> i"
    using Cons.prems by simp
  show ?case
    by (simp add: pair_update_set_acc [OF assms(1,2) j] Cons.IH [OF rest] add.assoc)
qed

lemma row_step:
  assumes "0 < EPS2" "i < length B"
  shows "for_each [Suc i..<length B]
           (pair_update G EPS2 i (r (set_acc B f ! i)) (m (set_acc B f ! i))) (set_acc B f)
         = Inr (set_acc B (\<lambda>k. f k + (\<Sum>j\<leftarrow>[Suc i..<length B]. contrib G EPS2 B i j k)))"
proof -
  have js: "\<forall>j\<in>set [Suc i..<length B]. j < length B \<and> j \<noteq> i"
    by simp
  have "r (set_acc B f ! i) = r (B ! i)" "m (set_acc B f ! i) = m (B ! i)"
    using assms(2) by simp_all
  then show ?thesis
    using inner_loop [OF assms js] by simp
qed

lemma outer_loop:
  assumes "0 < EPS2" "\<forall>i\<in>set rows. i < length B"
  shows "for_each rows
           (\<lambda>i bs. for_each [Suc i..<length B] (pair_update G EPS2 i (r (bs ! i)) (m (bs ! i))) bs)
           (set_acc B f)
         = Inr (set_acc B (\<lambda>k. f k + pair_sum G EPS2 B rows k))"
  using assms(2)
proof (induction rows arbitrary: f)
  case Nil
  then show ?case by (simp add: pair_sum_def)
next
  case (Cons i rows)
  have i: "i < length B"
    using Cons.prems by simp
  have rest: "\<forall>i\<in>set rows. i < length B"
    using Cons.prems by simp
  have ps: "pair_sum G EPS2 B (i # rows) k
      = (\<Sum>j\<leftarrow>[Suc i..<length B]. contrib G EPS2 B i j k) + pair_sum G EPS2 B rows k" for k
    by (simp add: pair_sum_def)
  show ?case
    by (simp add: row_step [OF assms(1) i] Cons.IH [OF rest] ps add.assoc)
qed

lemma zeroed_set_acc: "map (\<lambda>b. b\<lparr>a := 0\<rparr>) B = set_acc B (\<lambda>k. 0)"
  by (intro nth_equalityI) simp_all

lemma accelerations_pair_sum:
  assumes "0 < EPS2"
  shows "accelerations G EPS2 B
           = Inr (set_acc B (pair_sum G EPS2 B [0..<length B - 1]))"
proof -
  have rows: "\<forall>i\<in>set [0..<length B - 1]. i < length B"
    by auto
  have "accelerations G EPS2 B
      = for_each [0..<length B - 1]
          (\<lambda>i bs. for_each [Suc i..<length B] (pair_update G EPS2 i (r (bs ! i)) (m (bs ! i))) bs)
          (set_acc B (\<lambda>k. 0))"
    by (simp add: accelerations_def Let_def zeroed_set_acc)
  also have "\<dots> = Inr (set_acc B (\<lambda>k. 0 + pair_sum G EPS2 B [0..<length B - 1] k))"
    using assms rows by (rule outer_loop)
  finally show ?thesis
    by simp
qed

lemma powr_three_halves:
  fixes d :: real
  assumes "0 < d"
  shows "d powr (3 / 2) = sqrt d * d"
proof -
  have "d powr (3 / 2) = d powr (1 / 2 + 1)"
    by simp
  also have "\<dots> = d powr (1 / 2) * d powr 1"
    by (rule powr_add)
  also have "\<dots> = sqrt d * d"
    using assms by (simp add: powr_half_sqrt)
  finally show ?thesis .
qed

lemma dist2_of_norm_sq: "dist2_of EPS2 bi bj = norm_sq (r bj - r bi) + EPS2"
  by (simp add: dist2_of_def norm_sq_def power2_eq_square)

lemma src_force_spec:
  assumes "0 < EPS2"
  shows "src_force G EPS2 bi bj = spec_force G EPS2 bi bj"
proof -
  have pos: "0 < norm_sq (r bj - r bi) + EPS2"
    using dist2_of_pos [OF assms, of bi bj] by (simp add: dist2_of_norm_sq)
  show ?thesis
    by (simp add: src_force_def spec_force_def dist2_of_norm_sq powr_three_halves [OF pos])
qed

lemma sum_list_upt_sum: "(\<Sum>j\<leftarrow>[p..<q]. f j) = (\<Sum>j = p..<q. f j)"
  for f :: "nat \<Rightarrow> 'a::comm_monoid_add"
  by (simp add: interv_sum_list_conv_sum_set_nat)

lemma pair_sum_closed:
  assumes "k < length B"
  shows "pair_sum G EPS2 B [0..<length B - 1] k
         = (\<Sum>j = k + 1..<length B. src_force G EPS2 (B ! k) (B ! j) /\<^sub>R m (B ! k))
           - (\<Sum>i = 0..<k. src_force G EPS2 (B ! i) (B ! k) /\<^sub>R m (B ! k))"
proof -
  let ?N = "length B"
  let ?X = "\<lambda>i j. src_force G EPS2 (B ! i) (B ! j) /\<^sub>R m (B ! i)"
  let ?Y = "\<lambda>i j. src_force G EPS2 (B ! i) (B ! j) /\<^sub>R m (B ! j)"
  have "pair_sum G EPS2 B [0..<?N - 1] k
      = (\<Sum>i = 0..<?N - 1. \<Sum>j = Suc i..<?N. contrib G EPS2 B i j k)"
    by (simp add: pair_sum_def sum_list_upt_sum)
  also have "\<dots> = (\<Sum>i = 0..<?N - 1. \<Sum>j = Suc i..<?N. (if k = i then ?X i j else 0))
                  - (\<Sum>i = 0..<?N - 1. \<Sum>j = Suc i..<?N. (if k = j then ?Y i j else 0))"
    by (simp add: contrib_def sum_subtractf)
  also have "(\<Sum>i = 0..<?N - 1. \<Sum>j = Suc i..<?N. (if k = i then ?X i j else 0))
           = (\<Sum>i = 0..<?N - 1. if k = i then (\<Sum>j = Suc k..<?N. ?X k j) else 0)"
    by (intro sum.cong) auto
  also have "\<dots> = (if k \<in> {0..<?N - 1} then (\<Sum>j = Suc k..<?N. ?X k j) else 0)"
    by (simp add: sum.delta')
  also have "\<dots> = (\<Sum>j = Suc k..<?N. ?X k j)"
    using assms by auto
  also have "(\<Sum>i = 0..<?N - 1. \<Sum>j = Suc i..<?N. (if k = j then ?Y i j else 0))
           = (\<Sum>i = 0..<?N - 1. if i < k then ?Y i k else 0)"
    using assms by (intro sum.cong) (auto simp: sum.delta')
  also have "\<dots> = (\<Sum>i \<in> {0..<?N - 1} \<inter> {i. i < k}. ?Y i k)"
    by (simp add: sum.inter_restrict)
  also have "{0..<?N - 1} \<inter> {i. i < k} = {0..<k}"
    using assms by auto
  finally show ?thesis
    by simp
qed

lemma accelerations_ignores_old:
  assumes "map (\<lambda>b. b\<lparr>a := 0\<rparr>) bodies2 = map (\<lambda>b. b\<lparr>a := 0\<rparr>) bodies"
  shows "accelerations G EPS2 bodies2 = accelerations G EPS2 bodies"
  unfolding accelerations_def assms ..

lemma spec_acceleration_src:
  assumes "0 < EPS2"
  shows "spec_acceleration G EPS2 B k
         = (\<Sum>j = k + 1..<length B. src_force G EPS2 (B ! k) (B ! j) /\<^sub>R m (B ! k))
           - (\<Sum>i = 0..<k. src_force G EPS2 (B ! i) (B ! k) /\<^sub>R m (B ! k))"
  by (simp add: spec_acceleration_def src_force_spec [OF assms])

lemma accelerations_closed:
  assumes "0 < EPS2"
  shows "accelerations G EPS2 B = Inr (set_acc B (spec_acceleration G EPS2 B))"
proof -
  have eq: "pair_sum G EPS2 B [0..<length B - 1] k = spec_acceleration G EPS2 B k"
    if "k < length B" for k
    using pair_sum_closed [OF that, of G EPS2] spec_acceleration_src [OF assms, of G B k]
    by (rule trans [OF _ sym])
  have "set_acc B (pair_sum G EPS2 B [0..<length B - 1]) = set_acc B (spec_acceleration G EPS2 B)"
    by (rule nth_equalityI) (simp_all add: eq del: One_nat_def)
  then show ?thesis
    by (simp add: accelerations_pair_sum [OF assms])
qed

section \<open>Bounds on the softened force\<close>

lemma vec_len_nonneg: "0 \<le> vec_len p"
  by (simp add: vec_len_def norm_sq_def)

lemma vec_len_zero: "vec_len 0 = 0"
  by (simp add: vec_len_def norm_sq_def zero_vec2_def)

lemma vec_len_triangle: "vec_len (p + q) \<le> vec_len p + vec_len q"
  unfolding vec_len_def norm_sq_def plus_vec2_def vec2.sel
  by (rule real_sqrt_sum_squares_triangle_ineq)

lemma vec_len_scale: "vec_len (k *\<^sub>R p) = \<bar>k\<bar> * vec_len p"
proof -
  have "norm_sq (k *\<^sub>R p) = k\<^sup>2 * norm_sq p"
    by (simp add: norm_sq_def scaleR_vec2_def power_mult_distrib distrib_left)
  then show ?thesis
    by (simp add: vec_len_def real_sqrt_mult)
qed

lemma vec_len_minus: "vec_len (- p) = vec_len p"
  using vec_len_scale [of "- 1" p] by simp

lemma vec_len_diff: "vec_len (p - q) \<le> vec_len p + vec_len q"
  using vec_len_triangle [of p "- q"] by (simp add: vec_len_minus)

lemma vec_len_sum: "finite S \<Longrightarrow> vec_len (\<Sum>i\<in>S. f i) \<le> (\<Sum>i\<in>S. vec_len (f i))"
proof (induction S rule: finite_induct)
  case empty
  then show ?case by (simp add: vec_len_zero)
next
  case (insert x F)
  have "vec_len (f x + sum f F) \<le> vec_len (f x) + vec_len (sum f F)"
    by (rule vec_len_triangle)
  with insert show ?case
    by simp
qed

lemma spec_force_len:
  assumes "0 < EPS2"
  shows "vec_len (spec_force G EPS2 bi bj) \<le> \<bar>G\<bar> * \<bar>m bi\<bar> * \<bar>m bj\<bar> / EPS2"
proof -
  let ?dr = "r bj - r bi"
  let ?d = "norm_sq ?dr + EPS2"
  have nn: "0 \<le> norm_sq ?dr"
    by (simp add: norm_sq_def)
  with assms have dpos: "0 < ?d" and dge: "EPS2 \<le> ?d"
    by simp_all
  have len_le: "vec_len ?dr \<le> sqrt ?d"
    unfolding vec_len_def using assms by simp
  have sq: "0 < sqrt ?d"
    using dpos by simp
  let ?c = "\<bar>G\<bar> * \<bar>m bi\<bar> * \<bar>m bj\<bar>"
  have c: "0 \<le> ?c"
    by simp
  have "vec_len (spec_force G EPS2 bi bj) = ?c / (sqrt ?d * ?d) * vec_len ?dr"
    using dpos sq
    by (simp add: spec_force_def vec_len_scale powr_three_halves [OF dpos] abs_mult)
  also have "\<dots> \<le> ?c / (sqrt ?d * ?d) * sqrt ?d"
    using len_le c dpos sq by (intro mult_left_mono) simp_all
  also have "\<dots> = ?c / ?d"
    using sq by simp
  also have "\<dots> \<le> ?c / EPS2"
    using c assms dge by (intro divide_left_mono) simp_all
  finally show ?thesis .
qed

lemma spec_force_over_mass_left:
  assumes "0 < EPS2" "0 < m bi"
  shows "vec_len (spec_force G EPS2 bi bj /\<^sub>R m bi) \<le> \<bar>G\<bar> * \<bar>m bj\<bar> / EPS2"
proof -
  have "vec_len (spec_force G EPS2 bi bj /\<^sub>R m bi)
      = vec_len (spec_force G EPS2 bi bj) / m bi"
    using assms(2) by (simp add: vec_len_scale divide_inverse mult.commute)
  also have "\<dots> \<le> (\<bar>G\<bar> * \<bar>m bi\<bar> * \<bar>m bj\<bar> / EPS2) / m bi"
    using spec_force_len [OF assms(1), of G bi bj] assms(2) by (intro divide_right_mono) simp_all
  also have "\<dots> = \<bar>G\<bar> * \<bar>m bj\<bar> / EPS2"
    using assms(2) by simp
  finally show ?thesis .
qed

lemma spec_force_over_mass_right:
  assumes "0 < EPS2" "0 < m bj"
  shows "vec_len (spec_force G EPS2 bi bj /\<^sub>R m bj) \<le> \<bar>G\<bar> * \<bar>m bi\<bar> / EPS2"
proof -
  have "vec_len (spec_force G EPS2 bi bj /\<^sub>R m bj)
      = vec_len (spec_force G EPS2 bi bj) / m bj"
    using assms(2) by (simp add: vec_len_scale divide_inverse mult.commute)
  also have "\<dots> \<le> (\<bar>G\<bar> * \<bar>m bi\<bar> * \<bar>m bj\<bar> / EPS2) / m bj"
    using spec_force_len [OF assms(1), of G bi bj] assms(2) by (intro divide_right_mono) simp_all
  also have "\<dots> = \<bar>G\<bar> * \<bar>m bi\<bar> / EPS2"
    using assms(2) by simp
  finally show ?thesis .
qed

lemma total_mass_sum_nth: "total_mass bodies = (\<Sum>i = 0..<length bodies. m (bodies ! i))"
  by (simp add: total_mass_def sum_list_sum_nth)

lemma others_mass_le:
  assumes pos: "\<forall>b\<in>set bodies. 0 < m b" and k: "k < length bodies"
  shows "(\<Sum>j = k + 1..<length bodies. m (bodies ! j)) + (\<Sum>i = 0..<k. m (bodies ! i))
           \<le> total_mass bodies"
proof -
  let ?N = "length bodies"
  let ?f = "\<lambda>i. m (bodies ! i)"
  have nn: "0 \<le> ?f i" if "i < ?N" for i
    using pos that by (simp add: less_imp_le)
  have "sum ?f {k + 1..<?N} + sum ?f {0..<k} = sum ?f ({k + 1..<?N} \<union> {0..<k})"
    by (rule sum.union_disjoint [symmetric]) auto
  also have "\<dots> \<le> sum ?f {0..<?N}"
    using k by (intro sum_mono2) (auto intro: nn)
  finally show ?thesis
    by (simp only: total_mass_sum_nth)
qed

lemma spec_acceleration_len:
  assumes eps: "0 < EPS2" and pos: "\<forall>b\<in>set bodies. 0 < m b" and k: "k < length bodies"
  shows "vec_len (spec_acceleration G EPS2 bodies k) \<le> \<bar>G\<bar> * total_mass bodies / EPS2"
proof -
  let ?N = "length bodies"
  let ?X = "\<lambda>j. spec_force G EPS2 (bodies ! k) (bodies ! j) /\<^sub>R m (bodies ! k)"
  let ?Y = "\<lambda>i. spec_force G EPS2 (bodies ! i) (bodies ! k) /\<^sub>R m (bodies ! k)"
  have mpos: "0 < m (bodies ! i)" if "i < ?N" for i
    using pos that by simp
  have bx: "vec_len (?X j) \<le> \<bar>G\<bar> * m (bodies ! j) / EPS2" if "j \<in> {k + 1..<?N}" for j
    using spec_force_over_mass_left [OF eps mpos [OF k], of G "bodies ! j"] mpos [of j] that
    by simp
  have by': "vec_len (?Y i) \<le> \<bar>G\<bar> * m (bodies ! i) / EPS2" if "i \<in> {0..<k}" for i
    using spec_force_over_mass_right [OF eps mpos [OF k], of G "bodies ! i"] mpos [of i] that k
    by simp
  have "vec_len (spec_acceleration G EPS2 bodies k)
      \<le> vec_len (\<Sum>j = k + 1..<?N. ?X j) + vec_len (\<Sum>i = 0..<k. ?Y i)"
    unfolding spec_acceleration_def by (rule vec_len_diff)
  also have "\<dots> \<le> (\<Sum>j = k + 1..<?N. vec_len (?X j)) + (\<Sum>i = 0..<k. vec_len (?Y i))"
    by (intro add_mono vec_len_sum) simp_all
  also have "\<dots> \<le> (\<Sum>j = k + 1..<?N. \<bar>G\<bar> * m (bodies ! j) / EPS2)
                  + (\<Sum>i = 0..<k. \<bar>G\<bar> * m (bodies ! i) / EPS2)"
    by (intro add_mono sum_mono bx by')
  also have "\<dots> = \<bar>G\<bar> * ((\<Sum>j = k + 1..<?N. m (bodies ! j)) + (\<Sum>i = 0..<k. m (bodies ! i))) / EPS2"
    by (simp add: sum_distrib_left sum_divide_distrib distrib_left add_divide_distrib)
  also have "\<dots> \<le> \<bar>G\<bar> * total_mass bodies / EPS2"
    using others_mass_le [OF pos k] eps
    by (intro divide_right_mono mult_left_mono) simp_all
  finally show ?thesis .
qed

section \<open>Facts about the integrator step\<close>

lemma drift_kick_fused:
  "drift dt (kick dt bs) =
     map (\<lambda>b. let v_half = v b + (0.5 * dt) *\<^sub>R a b
              in b\<lparr>r := r b + dt *\<^sub>R v_half, v := v_half\<rparr>) bs"
  by (simp add: drift_def kick_def Let_def comp_def)

lemma step_verlet_spec_step: "step_verlet G EPS2 bodies dt = spec_step G EPS2 bodies dt"
  by (simp only: step_verlet_def spec_step_def Let_def
      drift_kick_fused [unfolded Let_def, symmetric] kick_def [symmetric])

lemma spec_acceleration_cong:
  assumes len: "length B' = length B"
    and same: "\<forall>i<length B. r (B' ! i) = r (B ! i) \<and> m (B' ! i) = m (B ! i)"
    and k: "k < length B"
  shows "spec_acceleration G EPS2 B' k = spec_acceleration G EPS2 B k"
proof -
  have f: "spec_force G EPS2 (B' ! i) (B' ! j) = spec_force G EPS2 (B ! i) (B ! j)"
    if "i < length B" "j < length B" for i j
    using same that by (simp add: spec_force_def)
  have "(\<Sum>j = k + 1..<length B'. spec_force G EPS2 (B' ! k) (B' ! j) /\<^sub>R m (B' ! k))
      = (\<Sum>j = k + 1..<length B. spec_force G EPS2 (B ! k) (B ! j) /\<^sub>R m (B ! k))"
    unfolding len using same k by (intro sum.cong refl) (simp add: f)
  moreover have "(\<Sum>i = 0..<k. spec_force G EPS2 (B' ! i) (B' ! k) /\<^sub>R m (B' ! k))
      = (\<Sum>i = 0..<k. spec_force G EPS2 (B ! i) (B ! k) /\<^sub>R m (B ! k))"
    using same k by (intro sum.cong refl) (simp add: f)
  ultimately show ?thesis
    by (simp only: spec_acceleration_def)
qed

lemma accelerations_fixed_point:
  assumes eps: "0 < EPS2"
    and cache: "\<forall>k<length B. a (B ! k) = spec_acceleration G EPS2 B k"
  shows "accelerations G EPS2 B = Inr B"
proof -
  have "set_acc B (spec_acceleration G EPS2 B) = B"
    using cache by (intro nth_equalityI) simp_all
  then show ?thesis
    by (simp add: accelerations_closed [OF eps])
qed

lemma step_verlet_result:
  assumes eps: "0 < EPS2"
  shows "\<exists>bs1 bs'. accelerations G EPS2 bodies = Inr bs1
           \<and> step_verlet G EPS2 bodies dt = Inr bs'
           \<and> length bs' = length bodies
           \<and> (\<forall>k<length bodies.
                 m (bs' ! k) = m (bodies ! k)
               \<and> a (bs1 ! k) = spec_acceleration G EPS2 bodies k
               \<and> r (bs' ! k)
                   = r (bodies ! k) + dt *\<^sub>R (v (bodies ! k) + (0.5 * dt) *\<^sub>R a (bs1 ! k))
               \<and> v (bs' ! k)
                   = (v (bodies ! k) + (0.5 * dt) *\<^sub>R a (bs1 ! k)) + (0.5 * dt) *\<^sub>R a (bs' ! k)
               \<and> a (bs' ! k) = spec_acceleration G EPS2 bs' k)
           \<and> accelerations G EPS2 bs' = Inr bs'"
proof -
  let ?N = "length bodies"
  let ?A = "spec_acceleration G EPS2 bodies"
  let ?bs1 = "set_acc bodies ?A"
  let ?bs2 = "drift dt (kick dt ?bs1)"
  let ?A2 = "spec_acceleration G EPS2 ?bs2"
  let ?bs3 = "set_acc ?bs2 ?A2"
  let ?bs' = "kick dt ?bs3"
  have run1: "accelerations G EPS2 bodies = Inr ?bs1"
    using eps by (rule accelerations_closed)
  have run2: "accelerations G EPS2 ?bs2 = Inr ?bs3"
    using eps by (rule accelerations_closed)
  have step: "step_verlet G EPS2 bodies dt = Inr ?bs'"
    by (simp add: step_verlet_spec_step spec_step_def run1 run2)
  have len2: "length ?bs2 = ?N" and len': "length ?bs' = ?N"
    by (simp_all add: drift_def kick_def)
  have nth2: "?bs2 ! k = (bodies ! k)\<lparr>a := ?A k,
                 v := v (bodies ! k) + (0.5 * dt) *\<^sub>R ?A k,
                 r := r (bodies ! k) + dt *\<^sub>R (v (bodies ! k) + (0.5 * dt) *\<^sub>R ?A k)\<rparr>"
    if "k < ?N" for k
    using that by (simp add: drift_def kick_def)
  have nth': "?bs' ! k = (?bs2 ! k)\<lparr>a := ?A2 k, v := v (?bs2 ! k) + (0.5 * dt) *\<^sub>R ?A2 k\<rparr>"
    if "k < ?N" for k
    using that len2 by (simp add: kick_def)
  have same: "\<forall>i<length ?bs2. r (?bs' ! i) = r (?bs2 ! i) \<and> m (?bs' ! i) = m (?bs2 ! i)"
    using nth' len2 by simp
  have acc': "spec_acceleration G EPS2 ?bs' k = ?A2 k" if "k < ?N" for k
    using spec_acceleration_cong [OF _ same, of k G EPS2] len' len2 that by simp
  have cache: "\<forall>k<length ?bs'. a (?bs' ! k) = spec_acceleration G EPS2 ?bs' k"
    using nth' acc' len' by simp
  have again: "accelerations G EPS2 ?bs' = Inr ?bs'"
    using eps cache by (rule accelerations_fixed_point)
  have fields: "\<forall>k<?N.
                 m (?bs' ! k) = m (bodies ! k)
               \<and> a (?bs1 ! k) = spec_acceleration G EPS2 bodies k
               \<and> r (?bs' ! k)
                   = r (bodies ! k) + dt *\<^sub>R (v (bodies ! k) + (0.5 * dt) *\<^sub>R a (?bs1 ! k))
               \<and> v (?bs' ! k)
                   = (v (bodies ! k) + (0.5 * dt) *\<^sub>R a (?bs1 ! k)) + (0.5 * dt) *\<^sub>R a (?bs' ! k)
               \<and> a (?bs' ! k) = spec_acceleration G EPS2 ?bs' k"
  proof (intro allI impI)
    fix k assume k: "k < ?N"
    have "a (?bs1 ! k) = ?A k"
      using k by simp
    moreover have "a (?bs' ! k) = ?A2 k"
      using nth' [OF k] by simp
    ultimately show "m (?bs' ! k) = m (bodies ! k)
               \<and> a (?bs1 ! k) = spec_acceleration G EPS2 bodies k
               \<and> r (?bs' ! k)
                   = r (bodies ! k) + dt *\<^sub>R (v (bodies ! k) + (0.5 * dt) *\<^sub>R a (?bs1 ! k))
               \<and> v (?bs' ! k)
                   = (v (bodies ! k) + (0.5 * dt) *\<^sub>R a (?bs1 ! k)) + (0.5 * dt) *\<^sub>R a (?bs' ! k)
               \<and> a (?bs' ! k) = spec_acceleration G EPS2 ?bs' k"
      using nth' [OF k] nth2 [OF k] acc' [OF k] by simp
  qed
  from run1 step len' fields again show ?thesis
    by blast
qed

section \<open>What the operations leave unchanged\<close>

lemma for_each_invariant:
  assumes "for_each xs f s = Inr s'" and "P s"
    and "\<And>i t t'. i \<in> set xs \<Longrightarrow> P t \<Longrightarrow> f i t = Inr t' \<Longrightarrow> P t'"
  shows "P s'"
  using assms
proof (induction xs arbitrary: s)
  case Nil
  then show ?case by simp
next
  case (Cons i xs)
  from Cons.prems(1) obtain t where t: "f i s = Inr t" and rest: "for_each xs f t = Inr s'"
    by (auto split: sum.splits)
  have "P t"
    using Cons.prems(3) [of i s t] Cons.prems(2) t by simp
  with rest show ?case
    using Cons.IH [of t] Cons.prems(3) by auto
qed

lemma map_update_same:
  assumes "g x = g (xs ! i)"
  shows "map g (xs[i := x]) = map g xs"
proof (rule nth_equalityI)
  show "length (map g (xs[i := x])) = length (map g xs)"
    by simp
next
  fix k
  assume "k < length (map g (xs[i := x]))"
  then have k: "k < length xs"
    by simp
  show "map g (xs[i := x]) ! k = map g xs ! k"
    using k assms by (cases "k = i") simp_all
qed

lemma pair_update_frame:
  assumes "pair_update G EPS2 i ri mi j bs = Inr bs'"
  shows "map (\<lambda>b. b\<lparr>a := 0\<rparr>) bs' = map (\<lambda>b. b\<lparr>a := 0\<rparr>) bs"
proof -
  have upd: "map (\<lambda>b. b\<lparr>a := 0\<rparr>) (xs[k := (xs ! k)\<lparr>a := x\<rparr>]) = map (\<lambda>b. b\<lparr>a := 0\<rparr>) xs"
    for xs :: "body list" and k x
    by (rule map_update_same) simp
  from assms show ?thesis
    by (auto simp: pair_update_def Let_def upd split: if_splits)
qed

lemma inner_frame:
  assumes "for_each js (pair_update G EPS2 i ri mi) bs = Inr bs'"
  shows "map (\<lambda>b. b\<lparr>a := 0\<rparr>) bs' = map (\<lambda>b. b\<lparr>a := 0\<rparr>) bs"
  using assms
  by (rule for_each_invariant [where P = "\<lambda>t. map (\<lambda>b. b\<lparr>a := 0\<rparr>) t = map (\<lambda>b. b\<lparr>a := 0\<rparr>) bs"])
    (simp_all add: pair_update_frame)

lemma accelerations_frame:
  assumes "accelerations G EPS2 bs = Inr bs'"
  shows "map (\<lambda>b. b\<lparr>a := 0\<rparr>) bs' = map (\<lambda>b. b\<lparr>a := 0\<rparr>) bs"
proof -
  let ?P = "\<lambda>t. map (\<lambda>b. b\<lparr>a := 0\<rparr>) t = map (\<lambda>b. b\<lparr>a := 0\<rparr>) bs"
  from assms have run: "for_each [0..<length bs - 1]
      (\<lambda>i t. for_each [Suc i..<length bs] (pair_update G EPS2 i (r (t ! i)) (m (t ! i))) t)
      (map (\<lambda>b. b\<lparr>a := 0\<rparr>) bs) = Inr bs'"
    by (simp add: accelerations_def Let_def)
  have start: "?P (map (\<lambda>b. b\<lparr>a := 0\<rparr>) bs)"
    by (simp add: comp_def)
  show ?thesis
    using run start
  proof (rule for_each_invariant [where P = ?P])
    fix i t t'
    assume "?P t"
      and "for_each [Suc i..<length bs] (pair_update G EPS2 i (r (t ! i)) (m (t ! i))) t = Inr t'"
    then show "?P t'"
      using inner_frame by metis
  qed
qed

lemma frame_mass: "map (\<lambda>b. b\<lparr>a := 0\<rparr>) bs' = map (\<lambda>b. b\<lparr>a := 0\<rparr>) bs \<Longrightarrow> map m bs' = map m bs"
proof -
  assume h: "map (\<lambda>b. b\<lparr>a := 0\<rparr>) bs' = map (\<lambda>b. b\<lparr>a := 0\<rparr>) bs"
  have "map m bs' = map m (map (\<lambda>b. b\<lparr>a := 0\<rparr>) bs')"
    by (simp add: comp_def)
  also have "\<dots> = map m (map (\<lambda>b. b\<lparr>a := 0\<rparr>) bs)"
    by (simp only: h)
  also have "\<dots> = map m bs"
    by (simp add: comp_def)
  finally show ?thesis .
qed

lemma accelerations_mass: "accelerations G EPS2 bs = Inr bs' \<Longrightarrow> map m bs' = map m bs"
  by (rule frame_mass) (rule accelerations_frame)

lemma step_verlet_mass:
  assumes "step_verlet G EPS2 bs dt = Inr bs'"
  shows "map m bs' = map m bs"
proof -
  from assms obtain bs1 bs3 where 1: "accelerations G EPS2 bs = Inr bs1"
    and 3: "accelerations G EPS2 (drift dt (kick dt bs1)) = Inr bs3"
    and out: "bs' = kick dt bs3"
    unfolding step_verlet_spec_step spec_step_def by (auto split: sum.splits)
  have "map m bs' = map m bs3"
    by (simp add: out kick_def comp_def)
  also have "\<dots> = map m (drift dt (kick dt bs1))"
    using 3 by (rule accelerations_mass)
  also have "\<dots> = map m bs1"
    by (simp add: drift_def kick_def comp_def)
  also have "\<dots> = map m bs"
    using 1 by (rule accelerations_mass)
  finally show ?thesis .
qed

lemma to_com_frame_mass: "to_com_frame bs = Inr bs' \<Longrightarrow> map m bs' = map m bs"
  by (auto simp: to_com_frame_def Let_def comp_def split: if_splits)

lemma apply_operation_mass: "apply_operation G EPS2 op bs = Inr bs' \<Longrightarrow> map m bs' = map m bs"
  by (cases op) (simp_all add: accelerations_mass step_verlet_mass to_com_frame_mass)

lemma run_operations_mass: "run_operations G EPS2 ops bs = Inr bs' \<Longrightarrow> map m bs' = map m bs"
proof (induction ops arbitrary: bs)
  case Nil
  then show ?case by simp
next
  case (Cons op ops)
  from Cons.prems obtain t where t: "apply_operation G EPS2 op bs = Inr t"
    and rest: "run_operations G EPS2 ops t = Inr bs'"
    by (auto split: sum.splits)
  have "map m bs' = map m t"
    using rest by (rule Cons.IH)
  also have "\<dots> = map m bs"
    using t by (rule apply_operation_mass)
  finally show ?case .
qed

lemma total_mass_map_m: "total_mass bs = sum_list (map m bs)"
  by (simp add: total_mass_def)

lemma step_verlet_returns:
  assumes "0 < EPS2"
  shows "\<exists>bs'. step_verlet G EPS2 bs dt = Inr bs'"
  by (simp add: step_verlet_spec_step spec_step_def accelerations_closed [OF assms])

lemma apply_operation_returns:
  assumes "0 < EPS2" and "bs \<noteq> []"
  shows "\<exists>t. apply_operation G EPS2 op bs = Inr t"
proof (cases op)
  case Accelerations
  then show ?thesis
    by (simp add: accelerations_closed [OF assms(1)])
next
  case (Step dt)
  then show ?thesis
    using step_verlet_returns [OF assms(1)] by simp
next
  case ToComFrame
  then show ?thesis
    by (simp add: to_com_frame_eq [OF assms(2)])
qed

lemma run_operations_returns:
  assumes "0 < EPS2"
  shows "bs \<noteq> [] \<Longrightarrow> \<exists>bs'. run_operations G EPS2 ops bs = Inr bs'"
proof (induction ops arbitrary: bs)
  case Nil
  then show ?case by simp
next
  case (Cons op ops)
  from apply_operation_returns [OF assms Cons.prems]
  obtain t where t: "apply_operation G EPS2 op bs = Inr t"
    by blast
  have "map m t = map m bs"
    using t by (rule apply_operation_mass)
  then have "length t = length bs"
    by (rule map_eq_imp_length_eq)
  with Cons.prems have "t \<noteq> []"
    by auto
  from Cons.IH [OF this] t show ?case
    by simp
qed

lemma map_result_simps [simp]:
  "map_result h (Inl e) = Inl e" "map_result h (Inr s) = Inr (h s)"
  by (simp_all add: map_result_def)

lemma for_each_commute:
  assumes "I s"
    and "\<And>i t. i \<in> set xs \<Longrightarrow> I t \<Longrightarrow> f' i (h t) = map_result h (f i t)"
    and "\<And>i t t'. i \<in> set xs \<Longrightarrow> I t \<Longrightarrow> f i t = Inr t' \<Longrightarrow> I t'"
  shows "for_each xs f' (h s) = map_result h (for_each xs f s)"
  using assms
proof (induction xs arbitrary: s)
  case Nil
  then show ?case by simp
next
  case (Cons i xs)
  have head: "f' i (h s) = map_result h (f i s)"
    by (rule Cons.prems(2)) (simp_all add: Cons.prems(1))
  show ?case
  proof (cases "f i s")
    case (Inl e)
    with head show ?thesis by simp
  next
    case (Inr t)
    have t: "I t"
      using Cons.prems(3) [of i s t] Cons.prems(1) Inr by simp
    have "for_each xs f' (h t) = map_result h (for_each xs f t)"
    proof (rule Cons.IH)
      show "I t"
        by (fact t)
    next
      fix j u
      assume "j \<in> set xs" and "I u"
      then show "f' j (h u) = map_result h (f j u)"
        using Cons.prems(2) [of j u] by simp
    next
      fix j u u'
      assume "j \<in> set xs" and "I u" and "f j u = Inr u'"
      then show "I u'"
        using Cons.prems(3) [of j u u'] by simp
    qed
    with head Inr show ?thesis by simp
  qed
qed

lemma pair_update_length:
  "pair_update G EPS2 i ri mi j bs = Inr bs' \<Longrightarrow> length bs' = length bs"
  by (auto simp: pair_update_def Let_def split: if_splits)

lemma pair_update_shift:
  assumes "i < length bs" and "j < length bs"
  shows "pair_update G EPS2 i (ri - p) mi j (map (shift p q) bs)
           = map_result (map (shift p q)) (pair_update G EPS2 i ri mi j bs)"
proof -
  have diff: "r (bs ! j) - p - (ri - p) = r (bs ! j) - ri"
    by simp
  have upd: "shift p q (b\<lparr>a := x\<rparr>) = (shift p q b)\<lparr>a := x\<rparr>" for b x
    by (simp add: shift_def)
  have sa: "a (shift p q b) = a b" "m (shift p q b) = m b" "r (shift p q b) = r b - p" for b
    by (simp_all add: shift_def)
  show ?thesis
    using assms
    by (simp add: pair_update_def Let_def sa diff map_update upd nth_list_update)
qed

lemma inner_loop_shift:
  assumes "i < length bs"
  shows "for_each [Suc i..<length bs] (pair_update G EPS2 i (ri - p) mi) (map (shift p q) bs)
           = map_result (map (shift p q))
               (for_each [Suc i..<length bs] (pair_update G EPS2 i ri mi) bs)"
proof (rule for_each_commute [where I = "\<lambda>t::body list. length t = length bs"])
  show "length bs = length bs" ..
next
  fix j and t :: "body list"
  assume "j \<in> set [Suc i..<length bs]" and "length t = length bs"
  then show "pair_update G EPS2 i (ri - p) mi j (map (shift p q) t)
               = map_result (map (shift p q)) (pair_update G EPS2 i ri mi j t)"
    using assms by (intro pair_update_shift) simp_all
next
  fix j and t t' :: "body list"
  assume "length t = length bs" and "pair_update G EPS2 i ri mi j t = Inr t'"
  then show "length t' = length bs"
    using pair_update_length by metis
qed

lemma inner_loop_length:
  assumes "for_each js (pair_update G EPS2 i ri mi) bs = Inr bs'"
  shows "length bs' = length bs"
  using assms
  by (rule for_each_invariant [where P = "\<lambda>t::body list. length t = length bs"])
    (simp_all add: pair_update_length)

lemma accelerations_shift:
  "accelerations G EPS2 (map (shift p q) bs)
     = map_result (map (shift p q)) (accelerations G EPS2 bs)"
proof -
  let ?N = "length bs"
  let ?h = "map (shift p q)"
  let ?body = "\<lambda>i t. for_each [Suc i..<?N] (pair_update G EPS2 i (r (t ! i)) (m (t ! i))) t"
  have zero: "map (\<lambda>b. b\<lparr>a := 0\<rparr>) (?h bs) = ?h (map (\<lambda>b. b\<lparr>a := 0\<rparr>) bs)"
    by (simp add: shift_def comp_def)
  have "for_each [0..<?N - 1] ?body (?h (map (\<lambda>b. b\<lparr>a := 0\<rparr>) bs))
      = map_result ?h (for_each [0..<?N - 1] ?body (map (\<lambda>b. b\<lparr>a := 0\<rparr>) bs))"
  proof (rule for_each_commute [where I = "\<lambda>t::body list. length t = ?N"])
    show "length (map (\<lambda>b. b\<lparr>a := 0\<rparr>) bs) = ?N"
      by simp
  next
    fix i and t :: "body list"
    assume i: "i \<in> set [0..<?N - 1]" and len: "length t = ?N"
    then have it: "i < length t"
      by auto
    have "r (?h t ! i) = r (t ! i) - p" "m (?h t ! i) = m (t ! i)"
      using it by (simp_all add: shift_def)
    then show "?body i (?h t) = map_result ?h (?body i t)"
      using inner_loop_shift [OF it, of G EPS2 "r (t ! i)" p "m (t ! i)" q] len by simp
  next
    fix i and t t' :: "body list"
    assume "length t = ?N" and "?body i t = Inr t'"
    then show "length t' = ?N"
      using inner_loop_length by metis
  qed
  then have main: "for_each [0..<?N - 1] ?body (?h (map (\<lambda>b. b\<lparr>a := 0\<rparr>) bs))
      = map_result ?h (for_each [0..<?N - 1] ?body (map (\<lambda>b. b\<lparr>a := 0\<rparr>) bs))" .
  have lhs: "accelerations G EPS2 (?h bs)
      = for_each [0..<?N - 1] ?body (?h (map (\<lambda>b. b\<lparr>a := 0\<rparr>) bs))"
    unfolding accelerations_def Let_def zero by simp
  have rhs: "accelerations G EPS2 bs
      = for_each [0..<?N - 1] ?body (map (\<lambda>b. b\<lparr>a := 0\<rparr>) bs)"
    by (simp add: accelerations_def Let_def)
  show ?thesis
    unfolding lhs rhs by (rule main)
qed

section \<open>Linear momentum\<close>

lemma momentum_sum_nth: "momentum bs = (\<Sum>k = 0..<length bs. m (bs ! k) *\<^sub>R v (bs ! k))"
proof -
  have "momentum bs = (\<Sum>k = 0..<length bs. map (\<lambda>b. m b *\<^sub>R v b) bs ! k)"
    by (simp add: momentum_def sum_list_sum_nth)
  also have "\<dots> = (\<Sum>k = 0..<length bs. m (bs ! k) *\<^sub>R v (bs ! k))"
    by (intro sum.cong refl) simp
  finally show ?thesis .
qed

lemma spec_acceleration_pair_sum:
  assumes "0 < EPS2" and "k < length B"
  shows "spec_acceleration G EPS2 B k = pair_sum G EPS2 B [0..<length B - 1] k"
  using spec_acceleration_src [OF assms(1), of G B k] pair_sum_closed [OF assms(2), of G EPS2]
  by (rule trans [OF _ sym])

lemma pair_sum_sets:
  "pair_sum G EPS2 B [0..<n] k = (\<Sum>i = 0..<n. \<Sum>j = Suc i..<length B. contrib G EPS2 B i j k)"
  by (simp add: pair_sum_def sum_list_upt_sum)

lemma contrib_weighted_zero:
  assumes i: "i < length B" and j: "j < length B"
    and mi: "m (B ! i) \<noteq> 0" and mj: "m (B ! j) \<noteq> 0"
  shows "(\<Sum>k = 0..<length B. m (B ! k) *\<^sub>R contrib G EPS2 B i j k) = 0"
proof -
  let ?F = "src_force G EPS2 (B ! i) (B ! j)"
  have "(\<Sum>k = 0..<length B. m (B ! k) *\<^sub>R contrib G EPS2 B i j k)
      = (\<Sum>k = 0..<length B. (if k = i then m (B ! k) *\<^sub>R (?F /\<^sub>R m (B ! i)) else 0)
                             - (if k = j then m (B ! k) *\<^sub>R (?F /\<^sub>R m (B ! j)) else 0))"
    by (intro sum.cong refl) (simp add: contrib_def scaleR_diff_right)
  also have "\<dots> = (\<Sum>k = 0..<length B. if k = i then m (B ! k) *\<^sub>R (?F /\<^sub>R m (B ! i)) else 0)
                  - (\<Sum>k = 0..<length B. if k = j then m (B ! k) *\<^sub>R (?F /\<^sub>R m (B ! j)) else 0)"
    by (rule sum_subtractf)
  also have "\<dots> = m (B ! i) *\<^sub>R (?F /\<^sub>R m (B ! i)) - m (B ! j) *\<^sub>R (?F /\<^sub>R m (B ! j))"
    using i j by (simp add: sum.delta)
  also have "\<dots> = 0"
    using mi mj by simp
  finally show ?thesis .
qed

lemma net_force_zero:
  assumes eps: "0 < EPS2" and pos: "\<forall>b\<in>set B. 0 < m b"
  shows "(\<Sum>k = 0..<length B. m (B ! k) *\<^sub>R spec_acceleration G EPS2 B k) = 0"
proof -
  let ?N = "length B"
  let ?c = "\<lambda>i j k. m (B ! k) *\<^sub>R contrib G EPS2 B i j k"
  have nz: "m (B ! i) \<noteq> 0" if "i < ?N" for i
    using pos that by (auto simp: all_set_conv_all_nth)
  have "(\<Sum>k = 0..<?N. m (B ! k) *\<^sub>R spec_acceleration G EPS2 B k)
      = (\<Sum>k = 0..<?N. m (B ! k) *\<^sub>R pair_sum G EPS2 B [0..<?N - 1] k)"
    by (intro sum.cong refl) (simp add: spec_acceleration_pair_sum [OF eps] del: One_nat_def)
  also have "\<dots> = (\<Sum>k = 0..<?N. \<Sum>i = 0..<?N - 1. \<Sum>j = Suc i..<?N. ?c i j k)"
    by (simp only: pair_sum_sets scaleR_sum_right)
  also have "\<dots> = (\<Sum>i = 0..<?N - 1. \<Sum>k = 0..<?N. \<Sum>j = Suc i..<?N. ?c i j k)"
    by (rule sum.swap)
  also have "\<dots> = (\<Sum>i = 0..<?N - 1. \<Sum>j = Suc i..<?N. \<Sum>k = 0..<?N. ?c i j k)"
    by (intro sum.cong refl sum.swap)
  also have "\<dots> = (\<Sum>i = 0..<?N - 1. \<Sum>j = Suc i..<?N. 0)"
  proof (intro sum.cong refl)
    fix i j
    assume "i \<in> {0..<?N - 1}" and "j \<in> {Suc i..<?N}"
    then have "i < ?N" and "j < ?N"
      by auto
    then show "(\<Sum>k = 0..<?N. ?c i j k) = 0"
      by (intro contrib_weighted_zero nz)
  qed
  also have "\<dots> = 0"
    by simp
  finally show ?thesis .
qed

lemma step_verlet_momentum:
  assumes eps: "0 < EPS2" and pos: "\<forall>b\<in>set bodies. 0 < m b"
  shows "\<exists>bs'. step_verlet G EPS2 bodies dt = Inr bs' \<and> momentum bs' = momentum bodies"
proof -
  let ?N = "length bodies"
  let ?h = "0.5 * dt"
  from step_verlet_result [OF eps, of G bodies dt]
  obtain bs1 bs' where res: "accelerations G EPS2 bodies = Inr bs1
           \<and> step_verlet G EPS2 bodies dt = Inr bs'
           \<and> length bs' = length bodies
           \<and> (\<forall>k<length bodies.
                 m (bs' ! k) = m (bodies ! k)
               \<and> a (bs1 ! k) = spec_acceleration G EPS2 bodies k
               \<and> r (bs' ! k)
                   = r (bodies ! k) + dt *\<^sub>R (v (bodies ! k) + (0.5 * dt) *\<^sub>R a (bs1 ! k))
               \<and> v (bs' ! k)
                   = (v (bodies ! k) + (0.5 * dt) *\<^sub>R a (bs1 ! k)) + (0.5 * dt) *\<^sub>R a (bs' ! k)
               \<and> a (bs' ! k) = spec_acceleration G EPS2 bs' k)
           \<and> accelerations G EPS2 bs' = Inr bs'"
    by (elim exE)
  note step = res [THEN conjunct2, THEN conjunct1]
    and len = res [THEN conjunct2, THEN conjunct2, THEN conjunct1]
    and fields = res [THEN conjunct2, THEN conjunct2, THEN conjunct2, THEN conjunct1]
  have pos': "\<forall>b\<in>set bs'. 0 < m b"
    using pos fields len by (simp add: all_set_conv_all_nth)
  have summand: "m (bs' ! k) *\<^sub>R v (bs' ! k)
      = m (bodies ! k) *\<^sub>R v (bodies ! k)
        + ?h *\<^sub>R (m (bodies ! k) *\<^sub>R spec_acceleration G EPS2 bodies k)
        + ?h *\<^sub>R (m (bs' ! k) *\<^sub>R spec_acceleration G EPS2 bs' k)" if "k < ?N" for k
  proof -
    from fields that have mk: "m (bs' ! k) = m (bodies ! k)"
      and a1: "a (bs1 ! k) = spec_acceleration G EPS2 bodies k"
      and vk: "v (bs' ! k) = (v (bodies ! k) + ?h *\<^sub>R a (bs1 ! k)) + ?h *\<^sub>R a (bs' ! k)"
      and a': "a (bs' ! k) = spec_acceleration G EPS2 bs' k"
      by blast+
    show ?thesis
      unfolding vk a1 a' mk by (simp only: scaleR_add_right scaleR_left_commute)
  qed
  have "momentum bs' = (\<Sum>k = 0..<?N. m (bs' ! k) *\<^sub>R v (bs' ! k))"
    by (simp only: momentum_sum_nth len)
  also have "\<dots> = (\<Sum>k = 0..<?N. m (bodies ! k) *\<^sub>R v (bodies ! k)
        + ?h *\<^sub>R (m (bodies ! k) *\<^sub>R spec_acceleration G EPS2 bodies k)
        + ?h *\<^sub>R (m (bs' ! k) *\<^sub>R spec_acceleration G EPS2 bs' k))"
    by (intro sum.cong refl summand) simp
  also have "\<dots> = (\<Sum>k = 0..<?N. m (bodies ! k) *\<^sub>R v (bodies ! k))
        + ?h *\<^sub>R (\<Sum>k = 0..<?N. m (bodies ! k) *\<^sub>R spec_acceleration G EPS2 bodies k)
        + ?h *\<^sub>R (\<Sum>k = 0..<?N. m (bs' ! k) *\<^sub>R spec_acceleration G EPS2 bs' k)"
    by (simp only: sum.distrib scaleR_sum_right)
  also have "\<dots> = momentum bodies"
    using net_force_zero [OF eps pos, of G] net_force_zero [OF eps pos', of G]
    by (simp add: momentum_sum_nth len)
  finally show ?thesis
    using step by blast
qed

lemma steps_momentum:
  assumes eps: "0 < EPS2"
  shows "\<forall>b\<in>set bs. 0 < m b \<Longrightarrow>
         \<exists>bs'. run_operations G EPS2 (map Step dts) bs = Inr bs' \<and> momentum bs' = momentum bs"
proof (induction dts arbitrary: bs)
  case Nil
  then show ?case by simp
next
  case (Cons dt dts)
  from step_verlet_momentum [OF eps Cons.prems, of G dt]
  obtain t where t: "step_verlet G EPS2 bs dt = Inr t" and mt: "momentum t = momentum bs"
    by blast
  have "map m t = map m bs"
    using t by (rule step_verlet_mass)
  then have "set (map m t) = set (map m bs)"
    by simp
  then have "\<forall>b\<in>set t. 0 < m b"
    using Cons.prems by (metis (no_types, lifting) image_iff list.set_map)
  from Cons.IH [OF this] obtain bs' where "run_operations G EPS2 (map Step dts) t = Inr bs'"
    and "momentum bs' = momentum t"
    by blast
  with t mt show ?case
    by simp
qed

lemma total_mass_pos:
  assumes "bodies \<noteq> []" and "\<forall>b\<in>set bodies. 0 < m b"
  shows "0 < total_mass bodies"
proof -
  from assms(1) obtain b rest where split: "bodies = b # rest"
    by (cases bodies) simp_all
  have "0 \<le> sum_list (map m rest)"
    using assms(2) split by (intro sum_list_nonneg) (auto simp: less_imp_le)
  moreover have "0 < m b"
    using assms(2) split by simp
  ultimately show ?thesis
    by (simp add: total_mass_def split)
qed

lemma mass_positive_transfer:
  assumes "map m t = map m bs" and "\<forall>b\<in>set bs. 0 < m b"
  shows "\<forall>b\<in>set t. 0 < m b"
proof -
  from assms(1) have "set (map m t) = set (map m bs)"
    by simp
  then show ?thesis
    using assms(2) by (metis (no_types, lifting) image_iff list.set_map)
qed

section \<open>Evaluating a rounding\<close>

text \<open>
  The rounding of a given number is found from its binade and its nearest multiple of
  the spacing \<open>u\<close> of that binade: \<open>k u\<close> when \<open>x\<close> is nearer to it than half a spacing,
  or at half a spacing with \<open>k\<close> even.
\<close>

lemma rne_eqI:
  assumes "\<bar>t - of_int k\<bar> < 1 / 2"
  shows "rne t = k"
proof (cases "of_int k \<le> t")
  case True
  with assms have "\<lfloor>t\<rfloor> = k"
    by (intro floor_unique) auto
  with assms True show ?thesis
    by (simp add: rne_def Let_def)
next
  case False
  with assms have fl: "\<lfloor>t\<rfloor> = k - 1"
    by (intro floor_unique) auto
  with assms False have "1 / 2 < t - of_int \<lfloor>t\<rfloor>"
    by simp
  with fl show ?thesis
    by (simp add: rne_def Let_def)
qed

lemma rne_tieI:
  assumes "\<bar>t - of_int k\<bar> = 1 / 2" and "even k"
  shows "rne t = k"
proof (cases "of_int k \<le> t")
  case True
  with assms have "\<lfloor>t\<rfloor> = k"
    by (intro floor_unique) auto
  with assms True show ?thesis
    by (simp add: rne_def Let_def)
next
  case False
  with assms have fl: "\<lfloor>t\<rfloor> = k - 1"
    by (intro floor_unique) auto
  from assms False have "t - of_int (k - 1) = 1 / 2"
    by simp
  with fl assms(2) show ?thesis
    by (simp add: rne_def Let_def)
qed

lemma two_powr_diff:
  fixes p q :: nat
  shows "(2::real) powr (of_int (int p - int q)) = 2 ^ p / 2 ^ q"
  by (simp add: powr_diff powr_realpow)

lemma ulp_exp_eqI:
  fixes p q :: nat
  assumes u: "u = 2 ^ p / 2 ^ q" and range: "q \<le> p + 1074"
    and lo: "2 ^ 52 * u \<le> \<bar>x\<bar>" and hi: "\<bar>x\<bar> < 2 ^ 53 * u"
  shows "ulp_exp x = int p - int q"
proof -
  have upos: "0 < u"
    by (simp add: u)
  then have "0 < 2 ^ 52 * u"
    by simp
  with lo have xpos: "0 < \<bar>x\<bar>"
    by linarith
  have u': "u = 2 powr of_int (int p - int q)"
    by (simp only: u two_powr_diff)
  have p52: "(2::real) powr 52 = 2 ^ 52" and p53: "(2::real) powr 53 = 2 ^ 53"
    using powr_realpow [of "2::real" 52] powr_realpow [of "2::real" 53] by simp_all
  have "2 powr of_int (52 + (int p - int q))
          = 2 powr 52 * (2::real) powr of_int (int p - int q)"
    by (simp only: of_int_add of_int_numeral powr_add)
  with lo have lo': "2 powr of_int (52 + (int p - int q)) \<le> \<bar>x\<bar>"
    by (simp only: p52 u' [symmetric])
  have "2 powr of_int (53 + (int p - int q))
          = 2 powr 53 * (2::real) powr of_int (int p - int q)"
    by (simp only: of_int_add of_int_numeral powr_add)
  with hi have hi': "\<bar>x\<bar> < 2 powr of_int (53 + (int p - int q))"
    by (simp only: p53 u' [symmetric])
  have "of_int (52 + (int p - int q)) \<le> log 2 \<bar>x\<bar>"
    using lo' xpos
    by (simp only: le_log_iff [of 2, symmetric] one_less_numeral_iff num.simps semiring_norm)
  moreover have "real_of_int (52 + (int p - int q)) + 1 = of_int (53 + (int p - int q))"
    by simp
  then have "log 2 \<bar>x\<bar> < of_int (52 + (int p - int q)) + 1"
    using hi' xpos
    by (simp only: log_less_iff [of 2, symmetric] one_less_numeral_iff num.simps semiring_norm)
  ultimately have "\<lfloor>log 2 \<bar>x\<bar>\<rfloor> = 52 + (int p - int q)"
    by (intro floor_unique)
  with range show ?thesis
    by (simp add: ulp_exp_def)
qed

lemma f64_spacing:
  fixes p q :: nat
  assumes u: "u = 2 ^ p / 2 ^ q" and range: "q \<le> p + 1074"
    and lo: "2 ^ 52 * u \<le> \<bar>x\<bar>" and hi: "\<bar>x\<bar> < 2 ^ 53 * u"
  shows "f64 x = of_int (rne (x / u)) * u"
proof -
  have "0 < 2 ^ 52 * u"
    by (simp add: u)
  with lo have nz: "x \<noteq> 0"
    by auto
  have "2 powr of_int (ulp_exp x) = u"
    by (simp only: ulp_exp_eqI [OF u range lo hi] two_powr_diff u)
  with nz show ?thesis
    by (simp add: f64_def Let_def)
qed

lemma f64_eqI:
  fixes p q :: nat
  assumes u: "u = 2 ^ p / 2 ^ q" and range: "q \<le> p + 1074"
    and lo: "2 ^ 52 * u \<le> \<bar>x\<bar>" and hi: "\<bar>x\<bar> < 2 ^ 53 * u"
    and near: "\<bar>x - of_int k * u\<bar> * 2 < u"
  shows "f64 x = of_int k * u"
proof -
  have upos: "0 < u"
    by (simp add: u)
  have "\<bar>x / u - of_int k\<bar> = \<bar>x - of_int k * u\<bar> / u"
    using upos by (simp add: field_simps abs_if)
  also have "\<dots> < 1 / 2"
    using near upos by (simp add: field_simps)
  finally have "rne (x / u) = k"
    by (rule rne_eqI)
  then show ?thesis
    by (simp only: f64_spacing [OF u range lo hi])
qed

lemma f64_tie_eqI:
  fixes p q :: nat
  assumes u: "u = 2 ^ p / 2 ^ q" and range: "q \<le> p + 1074"
    and lo: "2 ^ 52 * u \<le> \<bar>x\<bar>" and hi: "\<bar>x\<bar> < 2 ^ 53 * u"
    and tie: "\<bar>x - of_int k * u\<bar> * 2 = u" and even: "even k"
  shows "f64 x = of_int k * u"
proof -
  have upos: "0 < u"
    by (simp add: u)
  have "\<bar>x / u - of_int k\<bar> = \<bar>x - of_int k * u\<bar> / u"
    using upos by (simp add: field_simps abs_if)
  also have "\<dots> = 1 / 2"
    using tie upos by (simp add: field_simps)
  finally have "rne (x / u) = k"
    using even by (rule rne_tieI)
  then show ?thesis
    by (simp only: f64_spacing [OF u range lo hi])
qed

text \<open>The rounding of a square root, from the squares of the two midpoints around it.\<close>

lemma f64_sqrt_eqI:
  fixes p q :: nat
  assumes u: "u = 2 ^ p / 2 ^ q" and range: "q \<le> p + 1074" and k: "1 \<le> k"
    and lo: "(2 ^ 52 * u)\<^sup>2 \<le> s" and hi: "s < (2 ^ 53 * u)\<^sup>2"
    and below: "((2 * of_int k - 1) * u)\<^sup>2 < 4 * s"
    and above: "4 * s < ((2 * of_int k + 1) * u)\<^sup>2"
  shows "f64 (sqrt s) = of_int k * u"
proof (rule f64_eqI [OF u range])
  have upos: "0 < u"
    by (simp add: u)
  have "0 \<le> (2 ^ 52 * u)\<^sup>2"
    by simp
  with lo have spos: "0 \<le> s"
    by linarith
  have four: "sqrt (4 * s) = 2 * sqrt s"
    by (simp add: real_sqrt_mult)
  have "2 ^ 52 * u \<le> sqrt s"
    using lo by (rule real_le_rsqrt)
  then show "2 ^ 52 * u \<le> \<bar>sqrt s\<bar>"
    by simp
  have "sqrt s < 2 ^ 53 * u"
    using hi upos by (intro real_less_lsqrt) simp_all
  then show "\<bar>sqrt s\<bar> < 2 ^ 53 * u"
    using spos by simp
  have "(2 * of_int k - 1) * u < sqrt (4 * s)"
    using below by (rule real_less_rsqrt)
  then have b: "(2 * of_int k - 1) * u < 2 * sqrt s"
    by (simp only: four)
  have "0 \<le> (2 * real_of_int k + 1) * u"
    using k upos by simp
  with above have "sqrt (4 * s) < (2 * of_int k + 1) * u"
    by (intro real_less_lsqrt) simp_all
  then have a: "2 * sqrt s < (2 * of_int k + 1) * u"
    by (simp only: four)
  from a b show "\<bar>sqrt s - of_int k * u\<bar> * 2 < u"
    by (simp add: abs_if algebra_simps)
qed

section \<open>Claims about the frame normalizer\<close>

text \<open>
  C3. For a non-empty system with positive total mass, \<^verbatim>\<open>to_com_frame\<close> returns the
  same bodies in the same order, with their masses and accelerations unchanged, the
  centre of mass \<open>(\<Sum> m\<^sub>i r\<^sub>i) / M\<close> of the input subtracted from every position and its
  velocity \<open>(\<Sum> m\<^sub>i v\<^sub>i) / M\<close> from every velocity; and in the returned system the
  mass-weighted sum of the positions and the mass-weighted sum of the velocities are both
  the zero vector: the centre of mass is at rest at the origin.
\<close>

theorem C3_com_at_rest_at_origin:
  assumes "bodies \<noteq> []" and "0 < total_mass bodies"
  shows "\<exists>bs'. to_com_frame bodies = Inr bs'
           \<and> length bs' = length bodies
           \<and> map m bs' = map m bodies
           \<and> map a bs' = map a bodies
           \<and> map r bs' = map (\<lambda>b. r b - mass_moment bodies /\<^sub>R total_mass bodies) bodies
           \<and> map v bs' = map (\<lambda>b. v b - momentum bodies /\<^sub>R total_mass bodies) bodies
           \<and> (\<Sum>b\<leftarrow>bs'. m b *\<^sub>R r b) = 0 \<and> (\<Sum>b\<leftarrow>bs'. m b *\<^sub>R v b) = 0"
proof -
  let ?bs' = "map (\<lambda>b. b\<lparr>r := r b - r_com bodies, v := v b - v_com bodies\<rparr>) bodies"
  from assms(2) have nz: "total_mass bodies \<noteq> 0"
    by simp
  have run: "to_com_frame bodies = Inr ?bs'"
    using assms(1) by (rule to_com_frame_eq)
  have len: "length ?bs' = length bodies"
    by simp
  have masses: "map m ?bs' = map m bodies"
    by (simp add: comp_def)
  have accs: "map a ?bs' = map a bodies"
    by (simp add: comp_def)
  have poss: "map r ?bs' = map (\<lambda>b. r b - mass_moment bodies /\<^sub>R total_mass bodies) bodies"
    by (simp add: comp_def r_com_def)
  have vels: "map v ?bs' = map (\<lambda>b. v b - momentum bodies /\<^sub>R total_mass bodies) bodies"
    by (simp add: comp_def v_com_def)
  have mr: "(\<Sum>b\<leftarrow>?bs'. m b *\<^sub>R r b) = 0"
    using mass_moment_com_zero [OF nz] by (simp only: mass_moment_def)
  have mv: "(\<Sum>b\<leftarrow>?bs'. m b *\<^sub>R v b) = 0"
    using momentum_com_zero [OF nz] by (simp only: momentum_def)
  from run len masses accs poss vels mr mv show ?thesis
    by (intro exI [of _ ?bs'] conjI)
qed

theorem C3_com_at_rest_at_origin_witness:
  "[\<lparr>r = Vec2 1 0, v = Vec2 0 1, m = 1, a = Vec2 5 6\<rparr>,
    \<lparr>r = Vec2 (- 1) 2, v = Vec2 0 0, m = 3, a = Vec2 7 8\<rparr>] \<noteq> []
   \<and> 0 < total_mass [\<lparr>r = Vec2 1 0, v = Vec2 0 1, m = 1, a = Vec2 5 6\<rparr>,
                      \<lparr>r = Vec2 (- 1) 2, v = Vec2 0 0, m = 3, a = Vec2 7 8\<rparr>]
   \<and> to_com_frame [\<lparr>r = Vec2 1 0, v = Vec2 0 1, m = 1, a = Vec2 5 6\<rparr>,
                   \<lparr>r = Vec2 (- 1) 2, v = Vec2 0 0, m = 3, a = Vec2 7 8\<rparr>]
     = Inr [\<lparr>r = Vec2 (3 / 2) (- (3 / 2)), v = Vec2 0 (3 / 4), m = 1, a = Vec2 5 6\<rparr>,
            \<lparr>r = Vec2 (- (1 / 2)) (1 / 2), v = Vec2 0 (- (1 / 4)), m = 3, a = Vec2 7 8\<rparr>]
   \<and> (\<Sum>b\<leftarrow>[\<lparr>r = Vec2 (3 / 2) (- (3 / 2)), v = Vec2 0 (3 / 4), m = 1, a = Vec2 5 6\<rparr>,
            \<lparr>r = Vec2 (- (1 / 2)) (1 / 2), v = Vec2 0 (- (1 / 4)), m = 3, a = Vec2 7 8\<rparr>]. m b *\<^sub>R r b) = 0
   \<and> (\<Sum>b\<leftarrow>[\<lparr>r = Vec2 (3 / 2) (- (3 / 2)), v = Vec2 0 (3 / 4), m = 1, a = Vec2 5 6\<rparr>,
            \<lparr>r = Vec2 (- (1 / 2)) (1 / 2), v = Vec2 0 (- (1 / 4)), m = 3, a = Vec2 7 8\<rparr>]. m b *\<^sub>R v b) = 0"
proof -
  let ?bodies = "[\<lparr>r = Vec2 1 0, v = Vec2 0 1, m = 1, a = Vec2 5 6\<rparr>,
                  \<lparr>r = Vec2 (- 1) 2, v = Vec2 0 0, m = 3, a = Vec2 7 8\<rparr>]"
  have ne: "?bodies \<noteq> []"
    by simp
  have pos: "0 < total_mass ?bodies"
    by (simp add: total_mass_def)
  have rc: "mass_moment ?bodies /\<^sub>R total_mass ?bodies = Vec2 (- (1 / 2)) (3 / 2)"
    by (simp add: mass_moment_def total_mass_def plus_vec2_def scaleR_vec2_def zero_vec2_def)
  have vc: "momentum ?bodies /\<^sub>R total_mass ?bodies = Vec2 0 (1 / 4)"
    by (simp add: momentum_def total_mass_def plus_vec2_def scaleR_vec2_def zero_vec2_def)
  from C3_com_at_rest_at_origin [OF ne pos] obtain bs'
    where run: "to_com_frame ?bodies = Inr bs'"
      and len: "length bs' = length ?bodies"
      and masses: "map m bs' = map m ?bodies"
      and accs: "map a bs' = map a ?bodies"
      and poss: "map r bs' = map (\<lambda>b. r b - mass_moment ?bodies /\<^sub>R total_mass ?bodies) ?bodies"
      and vels: "map v bs' = map (\<lambda>b. v b - momentum ?bodies /\<^sub>R total_mass ?bodies) ?bodies"
      and mr: "(\<Sum>b\<leftarrow>bs'. m b *\<^sub>R r b) = 0"
      and mv: "(\<Sum>b\<leftarrow>bs'. m b *\<^sub>R v b) = 0"
    by (elim exE conjE)
  from len obtain c1 c2 where two: "bs' = [c1, c2]"
    by (cases bs'; cases "tl bs'"; cases "tl (tl bs')") auto
  have c1: "c1 = \<lparr>r = Vec2 (3 / 2) (- (3 / 2)), v = Vec2 0 (3 / 4), m = 1, a = Vec2 5 6\<rparr>"
    using masses accs poss vels unfolding two rc vc
    by (cases c1) (simp add: minus_vec2_def)
  have c2: "c2 = \<lparr>r = Vec2 (- (1 / 2)) (1 / 2), v = Vec2 0 (- (1 / 4)), m = 3, a = Vec2 7 8\<rparr>"
    using masses accs poss vels unfolding two rc vc
    by (cases c2) (simp add: minus_vec2_def)
  from ne pos run mr mv show ?thesis
    unfolding two c1 c2 by (intro conjI)
qed

text \<open>
  C6. For a non-empty system with positive total mass, \<^verbatim>\<open>to_com_frame\<close> applied to its
  own result computes \<^verbatim>\<open>r_com\<close> = 0 and \<^verbatim>\<open>v_com\<close> = 0 and returns that result unchanged:
  applying it twice gives the same state as applying it once.
\<close>

theorem C6_to_com_frame_idempotent:
  assumes "bodies \<noteq> []" and "0 < total_mass bodies"
  shows "\<exists>bs'. to_com_frame bodies = Inr bs'
           \<and> py_sum (map (\<lambda>b. m b *\<^sub>R r b) bs') /\<^sub>R py_sum (map m bs') = 0
           \<and> py_sum (map (\<lambda>b. m b *\<^sub>R v b) bs') /\<^sub>R py_sum (map m bs') = 0
           \<and> to_com_frame bs' = Inr bs'"
proof -
  let ?bs' = "map (\<lambda>b. b\<lparr>r := r b - r_com bodies, v := v b - v_com bodies\<rparr>) bodies"
  from assms(2) have nz: "total_mass bodies \<noteq> 0"
    by simp
  have ne: "?bs' \<noteq> []"
    using assms(1) by simp
  have first: "to_com_frame bodies = Inr ?bs'"
    using assms(1) by (rule to_com_frame_eq)
  have rc: "r_com ?bs' = 0"
    using mass_moment_com_zero [OF nz] r_com_def [of ?bs'] by simp
  have vc: "v_com ?bs' = 0"
    using momentum_com_zero [OF nz] v_com_def [of ?bs'] by simp
  have "to_com_frame ?bs'
          = Inr (map (\<lambda>b. b\<lparr>r := r b - r_com ?bs', v := v b - v_com ?bs'\<rparr>) ?bs')"
    using ne by (rule to_com_frame_eq)
  also have "\<dots> = Inr ?bs'"
    unfolding rc vc by (simp add: comp_def)
  finally have second: "to_com_frame ?bs' = Inr ?bs'" .
  have rc': "py_sum (map (\<lambda>b. m b *\<^sub>R r b) ?bs') /\<^sub>R py_sum (map m ?bs') = 0"
    using rc unfolding r_com_def mass_moment_def total_mass_def py_sum_sum_list .
  have vc': "py_sum (map (\<lambda>b. m b *\<^sub>R v b) ?bs') /\<^sub>R py_sum (map m ?bs') = 0"
    using vc unfolding v_com_def momentum_def total_mass_def py_sum_sum_list .
  from first rc' vc' second show ?thesis
    by blast
qed

theorem C6_to_com_frame_idempotent_witness:
  "[\<lparr>r = Vec2 1 0, v = Vec2 0 1, m = 1, a = Vec2 0 0\<rparr>,
    \<lparr>r = Vec2 (-1) 2, v = Vec2 0 0, m = 3, a = Vec2 0 0\<rparr>] \<noteq> []
   \<and> 0 < total_mass [\<lparr>r = Vec2 1 0, v = Vec2 0 1, m = 1, a = Vec2 0 0\<rparr>,
                      \<lparr>r = Vec2 (-1) 2, v = Vec2 0 0, m = 3, a = Vec2 0 0\<rparr>]
   \<and> (\<exists>bs'. to_com_frame [\<lparr>r = Vec2 1 0, v = Vec2 0 1, m = 1, a = Vec2 0 0\<rparr>,
                            \<lparr>r = Vec2 (-1) 2, v = Vec2 0 0, m = 3, a = Vec2 0 0\<rparr>] = Inr bs'
         \<and> to_com_frame bs' = Inr bs')"
  using C6_to_com_frame_idempotent
    [of "[\<lparr>r = Vec2 1 0, v = Vec2 0 1, m = 1, a = Vec2 0 0\<rparr>,
          \<lparr>r = Vec2 (-1) 2, v = Vec2 0 0, m = 3, a = Vec2 0 0\<rparr>]"]
  by (auto simp add: total_mass_def)

section \<open>Construction\<close>

text \<open>
  C9, as stated, fails: the constructor accepts a negative and a zero mass, and the empty
  body list is built without an error.
\<close>

theorem C9_invalid_construction_accepted:
  "Body_init 0 0 0 0 (- 1) = Inr \<lparr>r = Vec2 0 0, v = Vec2 0 0, m = - 1, a = Vec2 0 0\<rparr>
   \<and> Body_init 0 0 0 0 0 = Inr \<lparr>r = Vec2 0 0, v = Vec2 0 0, m = 0, a = Vec2 0 0\<rparr>
   \<and> build_bodies [] = Inr []"
  by (simp add: Body_init_def)

text \<open>
  C9, amended. Construction validates nothing: for every list of initial conditions,
  empty or not and whatever the sign of the masses, building the body list succeeds, and
  the bodies carry the given positions, velocities and masses, in order, with zero
  accelerations.
\<close>

theorem C9_construction_never_fails:
  "\<exists>bs. build_bodies specs = Inr bs
        \<and> map r bs = map (\<lambda>(x, y, vx, vy, mass). Vec2 x y) specs
        \<and> map v bs = map (\<lambda>(x, y, vx, vy, mass). Vec2 vx vy) specs
        \<and> map m bs = map (\<lambda>(x, y, vx, vy, mass). mass) specs
        \<and> map a bs = map (\<lambda>_. 0) specs"
  by (induction specs rule: build_bodies.induct) (auto simp: Body_init_def zero_vec2_def)

section \<open>Claims about the force evaluator\<close>

text \<open>
  C2. With a positive softening constant, a call of \<^verbatim>\<open>accelerations\<close> returns a system
  of the same length whose positions, velocities and masses are those of the input and
  whose acceleration of body \<open>k\<close> is the sum, over the pairs \<open>(k, j)\<close> with \<open>k < j\<close>, of
  the pair force divided by the mass of \<open>k\<close>, minus the sum, over the pairs \<open>(i, k)\<close>
  with \<open>i < k\<close>, of the pair force divided by the mass of \<open>k\<close>: each unordered pair
  contributes once. The result does not depend on the accelerations stored before the
  call (any system that differs from the input only in them gives the same result), and a
  second call on the result returns it unchanged: accelerations are overwritten, not
  accumulated.
\<close>

theorem C2_accelerations_overwrite_pairwise:
  assumes "0 < EPS2"
  shows "\<exists>bs'. accelerations G EPS2 bodies = Inr bs'
           \<and> length bs' = length bodies
           \<and> (\<forall>k<length bodies.
                 r (bs' ! k) = r (bodies ! k) \<and> v (bs' ! k) = v (bodies ! k)
               \<and> m (bs' ! k) = m (bodies ! k)
               \<and> a (bs' ! k) = spec_acceleration G EPS2 bodies k)
           \<and> (\<forall>bodies2. map (\<lambda>b. b\<lparr>a := 0\<rparr>) bodies2 = map (\<lambda>b. b\<lparr>a := 0\<rparr>) bodies
                 \<longrightarrow> accelerations G EPS2 bodies2 = Inr bs')
           \<and> accelerations G EPS2 bs' = Inr bs'"
proof -
  let ?bs' = "set_acc bodies (spec_acceleration G EPS2 bodies)"
  have run: "accelerations G EPS2 bodies = Inr ?bs'"
    using assms by (rule accelerations_closed)
  have fields: "\<forall>k<length bodies.
                 r (?bs' ! k) = r (bodies ! k) \<and> v (?bs' ! k) = v (bodies ! k)
               \<and> m (?bs' ! k) = m (bodies ! k)
               \<and> a (?bs' ! k) = spec_acceleration G EPS2 bodies k"
    by simp
  have old: "\<forall>bodies2. map (\<lambda>b. b\<lparr>a := 0\<rparr>) bodies2 = map (\<lambda>b. b\<lparr>a := 0\<rparr>) bodies
                 \<longrightarrow> accelerations G EPS2 bodies2 = Inr ?bs'"
  proof (intro allI impI)
    fix bodies2
    assume same: "map (\<lambda>b. b\<lparr>a := 0\<rparr>) bodies2 = map (\<lambda>b. b\<lparr>a := 0\<rparr>) bodies"
    show "accelerations G EPS2 bodies2 = Inr ?bs'"
      by (simp only: accelerations_ignores_old [OF same] run)
  qed
  have len: "length ?bs' = length bodies"
    by simp
  have "map (\<lambda>b. b\<lparr>a := 0\<rparr>) ?bs' = map (\<lambda>b. b\<lparr>a := 0\<rparr>) bodies"
    by (intro nth_equalityI) simp_all
  with old have again: "accelerations G EPS2 ?bs' = Inr ?bs'"
    by blast
  from run len fields old again show ?thesis
    by blast
qed

theorem C2_accelerations_overwrite_pairwise_witness:
  "0 < (7::real)
   \<and> (\<exists>bs'. accelerations 1 7 [\<lparr>r = Vec2 0 0, v = Vec2 0 1, m = 1, a = Vec2 5 5\<rparr>,
                                 \<lparr>r = Vec2 3 0, v = Vec2 0 0, m = 3, a = Vec2 8 9\<rparr>] = Inr bs'
         \<and> length bs' = 2
         \<and> a (bs' ! 0) = Vec2 (9 / 64) 0
         \<and> a (bs' ! 1) = Vec2 (- (3 / 64)) 0
         \<and> accelerations 1 7 bs' = Inr bs')"
proof -
  let ?bs = "[\<lparr>r = Vec2 0 0, v = Vec2 0 1, m = 1, a = Vec2 5 5\<rparr>,
              \<lparr>r = Vec2 3 0, v = Vec2 0 0, m = 3, a = Vec2 8 9\<rparr>]"
  have pos: "0 < (7::real)"
    by simp
  from C2_accelerations_overwrite_pairwise [OF pos, of 1 ?bs]
  obtain bs' where run: "accelerations 1 7 ?bs = Inr bs'"
    and len: "length bs' = length ?bs"
    and fields: "\<forall>k<length ?bs. r (bs' ! k) = r (?bs ! k) \<and> v (bs' ! k) = v (?bs ! k)
               \<and> m (bs' ! k) = m (?bs ! k) \<and> a (bs' ! k) = spec_acceleration 1 7 ?bs k"
    and again: "accelerations 1 7 bs' = Inr bs'"
    by blast
  have p16: "(16::real) powr (3 / 2) = 64"
    using powr_three_halves [of 16] by simp
  have "a (bs' ! 0) = spec_acceleration 1 7 ?bs 0" "a (bs' ! 1) = spec_acceleration 1 7 ?bs 1"
    using fields by simp_all
  moreover have "spec_acceleration 1 7 ?bs 0 = Vec2 (9 / 64) 0"
    using p16
    by (simp add: spec_acceleration_def spec_force_def norm_sq_def minus_vec2_def
        scaleR_vec2_def zero_vec2_def)
  moreover have "spec_acceleration 1 7 ?bs 1 = Vec2 (- (3 / 64)) 0"
    using p16
    by (simp add: spec_acceleration_def spec_force_def norm_sq_def minus_vec2_def
        plus_vec2_def scaleR_vec2_def zero_vec2_def)
  ultimately show ?thesis
    using pos run len again by simp
qed

text \<open>
  C5, as stated, fails. The accelerations that the force evaluator writes are the
  rounded quotients \<^verbatim>\<open>fvec / mi\<close> and \<^verbatim>\<open>fvec / mj\<close>, and multiplying them back by the
  masses does not give two opposite vectors in general. With the constants of the
  scripts (\<^verbatim>\<open>G = 1.0\<close>, and \<^verbatim>\<open>EPS2 = 1e-3\<close>, the binary64 number
  \<open>1152921504606847 / 2\<^sup>6\<^sup>0\<close>) and the bodies of mass 3 at (0, 0) and of mass 5 at (2, 1),
  the first component of \<^verbatim>\<open>acceleration_i * mass_i\<close> is \<open>6040400735322303 / 2\<^sup>5\<^sup>1\<close>
  (2.6824767897270188) and that of \<^verbatim>\<open>-acceleration_j * mass_j\<close> is
  \<open>6040400735322302 / 2\<^sup>5\<^sup>1\<close> (2.6824767897270183).
\<close>

theorem C5_products_differ_in_binary64:
  "f64 1 = 1
   \<and> f64 (1 / 1000) = 1152921504606847 / 2 ^ 60
   \<and> accelerations_f64 1 (1152921504606847 / 2 ^ 60)
       [\<lparr>r = Vec2 0 0, v = Vec2 0 0, m = 3, a = Vec2 0 0\<rparr>,
        \<lparr>r = Vec2 2 1, v = Vec2 0 0, m = 5, a = Vec2 0 0\<rparr>]
     = Inr [\<lparr>r = Vec2 0 0, v = Vec2 0 0, m = 3, a = Vec2 (2013466911774101 / 2 ^ 51) (2013466911774101 / 2 ^ 52)\<rparr>,
            \<lparr>r = Vec2 2 1, v = Vec2 0 0, m = 5, a = Vec2 (- (2416160294128921 / 2 ^ 52)) (- (2416160294128921 / 2 ^ 53))\<rparr>]
   \<and> scale_f64 3 (Vec2 (2013466911774101 / 2 ^ 51) (2013466911774101 / 2 ^ 52))
     = Vec2 (6040400735322303 / 2 ^ 51) (6040400735322303 / 2 ^ 52)
   \<and> scale_f64 5 (- Vec2 (- (2416160294128921 / 2 ^ 52)) (- (2416160294128921 / 2 ^ 53)))
     = Vec2 (6040400735322302 / 2 ^ 51) (6040400735322302 / 2 ^ 52)
   \<and> scale_f64 3 (Vec2 (2013466911774101 / 2 ^ 51) (2013466911774101 / 2 ^ 52))
     \<noteq> scale_f64 5 (- Vec2 (- (2416160294128921 / 2 ^ 52)) (- (2416160294128921 / 2 ^ 53)))"
proof -
  have eps: "f64 (1 / 1000) = 1152921504606847 / 2 ^ 60"
    using f64_eqI [of "2 ^ 0 / 2 ^ 62" 0 62 "1 / 1000" 4611686018427388] by simp
  have e0: "f64 2 = 2"
    using f64_eqI [of "2 ^ 0 / 2 ^ 51" 0 51 2 4503599627370496] by simp
  have e1: "f64 1 = 1"
    using f64_eqI [of "2 ^ 0 / 2 ^ 52" 0 52 1 4503599627370496] by simp
  have e2: "f64 4 = 4"
    using f64_eqI [of "2 ^ 0 / 2 ^ 50" 0 50 4 4503599627370496] by simp
  have e3: "f64 5 = 5"
    using f64_eqI [of "2 ^ 0 / 2 ^ 50" 0 50 5 5629499534213120] by simp
  have e4: "f64 (5765760444538841727 / 1152921504606846976) = 5630625434119963 / 1125899906842624"
    using f64_eqI [of "2 ^ 0 / 2 ^ 50" 0 50 "5765760444538841727 / 1152921504606846976" 5630625434119963] by simp
  have e5: "f64 (sqrt (5630625434119963 / 1125899906842624)) = 2517840473846859 / 1125899906842624"
    using f64_sqrt_eqI [of "2 ^ 0 / 2 ^ 51" 0 51 5035680947693718 "5630625434119963 / 1125899906842624"]
    by (simp add: power2_eq_square)
  have e6: "f64 (1125899906842624 / 2517840473846859) = 8055478420625823 / 18014398509481984"
    using f64_eqI [of "2 ^ 0 / 2 ^ 54" 0 54 "1125899906842624 / 2517840473846859" 8055478420625823] by simp
  have e7: "f64 (8055478420625823 / 90090006945919408) = 6443094117677123 / 72057594037927936"
    using f64_eqI [of "2 ^ 0 / 2 ^ 56" 0 56 "8055478420625823 / 90090006945919408" 6443094117677123] by simp
  have e8: "f64 3 = 3"
    using f64_eqI [of "2 ^ 0 / 2 ^ 51" 0 51 3 6755399441055744] by simp
  have e9: "f64 15 = 15"
    using f64_eqI [of "2 ^ 0 / 2 ^ 49" 0 49 15 8444249301319680] by simp
  have e10: "f64 30 = 30"
    using f64_eqI [of "2 ^ 0 / 2 ^ 48" 0 48 30 8444249301319680] by simp
  have e11: "f64 (96646411765156845 / 36028797018963968) = 6040400735322303 / 2251799813685248"
    using f64_eqI [of "2 ^ 0 / 2 ^ 51" 0 51 "96646411765156845 / 36028797018963968" 6040400735322303] by simp
  have e12: "f64 (96646411765156845 / 72057594037927936) = 6040400735322303 / 4503599627370496"
    using f64_eqI [of "2 ^ 0 / 2 ^ 52" 0 52 "96646411765156845 / 72057594037927936" 6040400735322303] by simp
  have e13: "f64 (2013466911774101 / 2251799813685248) = 2013466911774101 / 2251799813685248"
    using f64_eqI [of "2 ^ 0 / 2 ^ 53" 0 53 "2013466911774101 / 2251799813685248" 8053867647096404] by simp
  have e14: "f64 (6040400735322303 / 2251799813685248) = 6040400735322303 / 2251799813685248"
    using f64_eqI [of "2 ^ 0 / 2 ^ 51" 0 51 "6040400735322303 / 2251799813685248" 6040400735322303] by simp
  have e15: "f64 (6040400735322303 / 11258999068426240) = 2416160294128921 / 4503599627370496"
    using f64_eqI [of "2 ^ 0 / 2 ^ 53" 0 53 "6040400735322303 / 11258999068426240" 4832320588257842] by simp
  have e16: "f64 (- (2416160294128921 / 4503599627370496)) = - (2416160294128921 / 4503599627370496)"
    using f64_eqI [of "2 ^ 0 / 2 ^ 53" 0 53 "- (2416160294128921 / 4503599627370496)" "- 4832320588257842"] by simp
  have e17: "f64 (12080801470644605 / 4503599627370496) = 3020200367661151 / 1125899906842624"
    using f64_tie_eqI [of "2 ^ 0 / 2 ^ 51" 0 51 "12080801470644605 / 4503599627370496" 6040400735322302] by simp
  have e18: "f64 (2013466911774101 / 4503599627370496) = 2013466911774101 / 4503599627370496"
    using f64_eqI [of "2 ^ 0 / 2 ^ 54" 0 54 "2013466911774101 / 4503599627370496" 8053867647096404] by simp
  have e19: "f64 (6040400735322303 / 4503599627370496) = 6040400735322303 / 4503599627370496"
    using f64_eqI [of "2 ^ 0 / 2 ^ 52" 0 52 "6040400735322303 / 4503599627370496" 6040400735322303] by simp
  have e20: "f64 (6040400735322303 / 22517998136852480) = 2416160294128921 / 9007199254740992"
    using f64_eqI [of "2 ^ 0 / 2 ^ 54" 0 54 "6040400735322303 / 22517998136852480" 4832320588257842] by simp
  have e21: "f64 (- (2416160294128921 / 9007199254740992)) = - (2416160294128921 / 9007199254740992)"
    using f64_eqI [of "2 ^ 0 / 2 ^ 54" 0 54 "- (2416160294128921 / 9007199254740992)" "- 4832320588257842"] by simp
  have e22: "f64 (12080801470644605 / 9007199254740992) = 3020200367661151 / 2251799813685248"
    using f64_tie_eqI [of "2 ^ 0 / 2 ^ 52" 0 52 "12080801470644605 / 9007199254740992" 6040400735322302] by simp
  have run: "accelerations_f64 1 (1152921504606847 / 2 ^ 60)
       [\<lparr>r = Vec2 0 0, v = Vec2 0 0, m = 3, a = Vec2 0 0\<rparr>,
        \<lparr>r = Vec2 2 1, v = Vec2 0 0, m = 5, a = Vec2 0 0\<rparr>]
     = Inr [\<lparr>r = Vec2 0 0, v = Vec2 0 0, m = 3, a = Vec2 (2013466911774101 / 2 ^ 51) (2013466911774101 / 2 ^ 52)\<rparr>,
            \<lparr>r = Vec2 2 1, v = Vec2 0 0, m = 5, a = Vec2 (- (2416160294128921 / 2 ^ 52)) (- (2416160294128921 / 2 ^ 53))\<rparr>]"
    by (simp add: accelerations_f64_def pair_update_f64_def Let_def add_f64_def sub_f64_def
        scale_f64_def div_f64_def zero_vec2_def upt_rec
        e0 e1 e2 e3 e4 e5 e6 e7 e8 e9 e10 e11 e12 e13 e14 e15 e16 e17 e18 e19 e20 e21
        e22)
  have p1: "scale_f64 3 (Vec2 (2013466911774101 / 2 ^ 51) (2013466911774101 / 2 ^ 52))
     = Vec2 (6040400735322303 / 2 ^ 51) (6040400735322303 / 2 ^ 52)"
    by (simp add: scale_f64_def
        e0 e1 e2 e3 e4 e5 e6 e7 e8 e9 e10 e11 e12 e13 e14 e15 e16 e17 e18 e19 e20 e21
        e22)
  have p2: "scale_f64 5 (- Vec2 (- (2416160294128921 / 2 ^ 52)) (- (2416160294128921 / 2 ^ 53)))
     = Vec2 (6040400735322302 / 2 ^ 51) (6040400735322302 / 2 ^ 52)"
    by (simp add: scale_f64_def uminus_vec2_def
        e0 e1 e2 e3 e4 e5 e6 e7 e8 e9 e10 e11 e12 e13 e14 e15 e16 e17 e18 e19 e20 e21
        e22)
  have ne: "scale_f64 3 (Vec2 (2013466911774101 / 2 ^ 51) (2013466911774101 / 2 ^ 52))
     \<noteq> scale_f64 5 (- Vec2 (- (2416160294128921 / 2 ^ 52)) (- (2416160294128921 / 2 ^ 53)))"
    unfolding p1 p2 by simp
  from e1 eps run p1 p2 ne show ?thesis
    by (intro conjI)
qed

text \<open>
  C5, amended. In exact arithmetic, in a two-body system with a positive softening
  constant and positive masses, after one call of \<^verbatim>\<open>accelerations\<close> the acceleration of
  the first body times its mass is the pair force \<open>f\<close>, the acceleration of the second
  body times its mass is \<open>- f\<close> for the same \<open>f\<close>, and so the two products are opposite to
  each other.
\<close>

theorem C5_two_body_antisymmetry:
  assumes "0 < EPS2" and "0 < m b1" and "0 < m b2"
  shows "\<exists>b1' b2'. accelerations G EPS2 [b1, b2] = Inr [b1', b2']
           \<and> m b1' *\<^sub>R a b1' = spec_force G EPS2 b1 b2
           \<and> m b2' *\<^sub>R a b2' = - spec_force G EPS2 b1 b2
           \<and> m b1' *\<^sub>R a b1' = - (m b2' *\<^sub>R a b2')"
proof -
  let ?f = "spec_force G EPS2 b1 b2"
  let ?b1' = "b1\<lparr>a := ?f /\<^sub>R m b1\<rparr>"
  let ?b2' = "b2\<lparr>a := - (?f /\<^sub>R m b2)\<rparr>"
  have a0: "spec_acceleration G EPS2 [b1, b2] 0 = ?f /\<^sub>R m b1"
    by (simp add: spec_acceleration_def)
  have a1: "spec_acceleration G EPS2 [b1, b2] 1 = - (?f /\<^sub>R m b2)"
    by (simp add: spec_acceleration_def)
  have "set_acc [b1, b2] (spec_acceleration G EPS2 [b1, b2]) = [?b1', ?b2']"
    using a0 a1 by (simp add: set_acc_def upt_rec)
  then have run: "accelerations G EPS2 [b1, b2] = Inr [?b1', ?b2']"
    by (simp add: accelerations_closed [OF assms(1)])
  have f1: "m ?b1' *\<^sub>R a ?b1' = ?f"
    using assms(2) by simp
  have f2: "m ?b2' *\<^sub>R a ?b2' = - ?f"
    using assms(3) by simp
  from run f1 f2 show ?thesis
    by (intro exI [of _ ?b1'] exI [of _ ?b2']) (simp only: minus_minus simp_thms)
qed

theorem C5_two_body_antisymmetry_witness:
  "0 < (7::real) \<and> 0 < m \<lparr>r = Vec2 0 0, v = Vec2 0 1, m = 1, a = Vec2 5 5\<rparr> \<and> 0 < m \<lparr>r = Vec2 3 0, v = Vec2 0 0, m = 3, a = Vec2 8 9\<rparr>
   \<and> (\<exists>b1' b2'. accelerations 1 7 [\<lparr>r = Vec2 0 0, v = Vec2 0 1, m = 1, a = Vec2 5 5\<rparr>,
         \<lparr>r = Vec2 3 0, v = Vec2 0 0, m = 3, a = Vec2 8 9\<rparr>] = Inr [b1', b2']
         \<and> m b1' *\<^sub>R a b1' = - (m b2' *\<^sub>R a b2'))"
proof -
  have "0 < (7::real)"
    and "0 < m \<lparr>r = Vec2 0 0, v = Vec2 0 1, m = 1, a = Vec2 5 5\<rparr>"
    and "0 < m \<lparr>r = Vec2 3 0, v = Vec2 0 0, m = 3, a = Vec2 8 9\<rparr>"
    by simp_all
  from this C5_two_body_antisymmetry [OF this, of 1] show ?thesis
    by blast
qed

text \<open>
  C8. With a positive softening constant \<^verbatim>\<open>accelerations\<close> never raises, wherever the
  bodies are (coincident positions included): the softened squared distance is positive,
  so the square root and the divisions by it are defined. When moreover the masses are
  positive, the length of every computed acceleration is at most \<open>|G| M / EPS2\<close>, with
  \<open>M\<close> the total mass: a bound that depends on the softening constant and not on the
  positions.
\<close>

theorem C8_softening_no_error_bounded:
  assumes "0 < EPS2"
  shows "\<exists>bs'. accelerations G EPS2 bodies = Inr bs'
           \<and> ((\<forall>b\<in>set bodies. 0 < m b) \<longrightarrow>
                (\<forall>k<length bodies. vec_len (a (bs' ! k)) \<le> \<bar>G\<bar> * total_mass bodies / EPS2))"
proof -
  let ?bs' = "set_acc bodies (spec_acceleration G EPS2 bodies)"
  have "accelerations G EPS2 bodies = Inr ?bs'"
    using assms by (rule accelerations_closed)
  moreover have "\<forall>k<length bodies. vec_len (a (?bs' ! k)) \<le> \<bar>G\<bar> * total_mass bodies / EPS2"
    if "\<forall>b\<in>set bodies. 0 < m b"
    using spec_acceleration_len [OF assms that] by simp
  ultimately show ?thesis
    by blast
qed

theorem C8_softening_no_error_bounded_witness:
  "0 < (1 / 1000 :: real)
   \<and> (\<exists>bs'. accelerations 1 (1 / 1000) [\<lparr>r = Vec2 1 1, v = Vec2 0 1, m = 1, a = Vec2 0 0\<rparr>,
         \<lparr>r = Vec2 1 1, v = Vec2 0 0, m = 3, a = Vec2 0 0\<rparr>] = Inr bs'
         \<and> vec_len (a (bs' ! 0)) \<le> 4000 \<and> vec_len (a (bs' ! 1)) \<le> 4000)"
proof -
  let ?bs = "[\<lparr>r = Vec2 1 1, v = Vec2 0 1, m = 1, a = Vec2 0 0\<rparr>,
        \<lparr>r = Vec2 1 1, v = Vec2 0 0, m = 3, a = Vec2 0 0\<rparr>]"
  have pos: "0 < (1 / 1000 :: real)"
    by simp
  from C8_softening_no_error_bounded [OF pos, of 1 ?bs]
  obtain bs' where run: "accelerations 1 (1 / 1000) ?bs = Inr bs'"
    and bound: "(\<forall>b\<in>set ?bs. 0 < m b) \<longrightarrow>
       (\<forall>k<length ?bs. vec_len (a (bs' ! k)) \<le> \<bar>1\<bar> * total_mass ?bs / (1 / 1000))"
    by blast
  have "\<forall>b\<in>set ?bs. 0 < m b"
    by simp
  with bound have "\<forall>k<length ?bs. vec_len (a (bs' ! k)) \<le> 4000"
    by (simp add: total_mass_def)
  then have "vec_len (a (bs' ! 0)) \<le> 4000" "vec_len (a (bs' ! 1)) \<le> 4000"
    by simp_all
  with pos run show ?thesis
    by blast
qed

section \<open>Claims about the integrator\<close>

text \<open>
  C1. One call of \<^verbatim>\<open>step_verlet\<close> is the five stages of the specification in their
  order: accelerations at the current positions, half-step velocities, positions advanced
  by \<open>dt\<close> times the half-step velocities, accelerations at the new positions, completed
  velocities. With a positive softening constant the call returns; every mass is
  unchanged, every position is \<open>r + dt (v + dt/2 a)\<close> and every velocity is
  \<open>v + dt/2 a + dt/2 a'\<close>, where \<open>a\<close> is the acceleration at the old positions and \<open>a'\<close>
  the one stored on return; and the stored accelerations are those of the returned
  positions (a further call of \<^verbatim>\<open>accelerations\<close> changes nothing).
\<close>

theorem C1_step_is_leapfrog:
  "step_verlet G EPS2 bodies dt = spec_step G EPS2 bodies dt
   \<and> (0 < EPS2 \<longrightarrow>
        (\<exists>bs1 bs'. accelerations G EPS2 bodies = Inr bs1
           \<and> step_verlet G EPS2 bodies dt = Inr bs'
           \<and> length bs' = length bodies
           \<and> (\<forall>k<length bodies.
                 m (bs' ! k) = m (bodies ! k)
               \<and> r (bs' ! k)
                   = r (bodies ! k) + dt *\<^sub>R (v (bodies ! k) + (0.5 * dt) *\<^sub>R a (bs1 ! k))
               \<and> v (bs' ! k)
                   = (v (bodies ! k) + (0.5 * dt) *\<^sub>R a (bs1 ! k)) + (0.5 * dt) *\<^sub>R a (bs' ! k)
               \<and> a (bs' ! k) = spec_acceleration G EPS2 bs' k)
           \<and> accelerations G EPS2 bs' = Inr bs'))"
proof (intro conjI impI)
  show "step_verlet G EPS2 bodies dt = spec_step G EPS2 bodies dt"
    by (rule step_verlet_spec_step)
next
  assume "0 < EPS2"
  from step_verlet_result [OF this, of G bodies dt]
  obtain bs1 bs' where "accelerations G EPS2 bodies = Inr bs1"
    and "step_verlet G EPS2 bodies dt = Inr bs'"
    and "length bs' = length bodies"
    and fields: "(\<forall>k<length bodies.
                  m (bs' ! k) = m (bodies ! k)
                \<and> a (bs1 ! k) = spec_acceleration G EPS2 bodies k
                \<and> r (bs' ! k)
                    = r (bodies ! k) + dt *\<^sub>R (v (bodies ! k) + (0.5 * dt) *\<^sub>R a (bs1 ! k))
                \<and> v (bs' ! k)
                    = (v (bodies ! k) + (0.5 * dt) *\<^sub>R a (bs1 ! k)) + (0.5 * dt) *\<^sub>R a (bs' ! k)
                \<and> a (bs' ! k) = spec_acceleration G EPS2 bs' k)"
    and "accelerations G EPS2 bs' = Inr bs'"
    by blast
  moreover from fields have "\<forall>k<length bodies.
                 m (bs' ! k) = m (bodies ! k)
               \<and> r (bs' ! k)
                   = r (bodies ! k) + dt *\<^sub>R (v (bodies ! k) + (0.5 * dt) *\<^sub>R a (bs1 ! k))
               \<and> v (bs' ! k)
                   = (v (bodies ! k) + (0.5 * dt) *\<^sub>R a (bs1 ! k)) + (0.5 * dt) *\<^sub>R a (bs' ! k)
               \<and> a (bs' ! k) = spec_acceleration G EPS2 bs' k"
    by blast
  ultimately show "\<exists>bs1 bs'. accelerations G EPS2 bodies = Inr bs1
           \<and> step_verlet G EPS2 bodies dt = Inr bs'
           \<and> length bs' = length bodies
           \<and> (\<forall>k<length bodies.
                 m (bs' ! k) = m (bodies ! k)
               \<and> r (bs' ! k)
                   = r (bodies ! k) + dt *\<^sub>R (v (bodies ! k) + (0.5 * dt) *\<^sub>R a (bs1 ! k))
               \<and> v (bs' ! k)
                   = (v (bodies ! k) + (0.5 * dt) *\<^sub>R a (bs1 ! k)) + (0.5 * dt) *\<^sub>R a (bs' ! k)
               \<and> a (bs' ! k) = spec_acceleration G EPS2 bs' k)
           \<and> accelerations G EPS2 bs' = Inr bs'"
    by blast
qed

theorem C1_step_is_leapfrog_witness:
  "0 < (7::real)
   \<and> step_verlet 1 7 [\<lparr>r = Vec2 0 0, v = Vec2 0 1, m = 1, a = Vec2 5 5\<rparr>,
         \<lparr>r = Vec2 3 0, v = Vec2 0 0, m = 3, a = Vec2 8 9\<rparr>] 2
     = spec_step 1 7
         [\<lparr>r = Vec2 0 0, v = Vec2 0 1, m = 1, a = Vec2 5 5\<rparr>,
         \<lparr>r = Vec2 3 0, v = Vec2 0 0, m = 3, a = Vec2 8 9\<rparr>] 2
   \<and> (\<exists>bs'. step_verlet 1 7 [\<lparr>r = Vec2 0 0, v = Vec2 0 1, m = 1, a = Vec2 5 5\<rparr>,
         \<lparr>r = Vec2 3 0, v = Vec2 0 0, m = 3, a = Vec2 8 9\<rparr>] 2 = Inr bs'
         \<and> length bs' = 2
         \<and> r (bs' ! 0) = Vec2 (9 / 32) 2
         \<and> r (bs' ! 1) = Vec2 (93 / 32) 0
         \<and> accelerations 1 7 bs' = Inr bs')"
proof -
  let ?bs = "[\<lparr>r = Vec2 0 0, v = Vec2 0 1, m = 1, a = Vec2 5 5\<rparr>,
        \<lparr>r = Vec2 3 0, v = Vec2 0 0, m = 3, a = Vec2 8 9\<rparr>]"
  have pos: "0 < (7::real)"
    by simp
  from C1_step_is_leapfrog [of 1 7 ?bs 2] pos
  obtain bs1 bs' where same: "step_verlet 1 7 ?bs 2 = spec_step 1 7 ?bs 2"
    and run1: "accelerations 1 7 ?bs = Inr bs1"
    and step: "step_verlet 1 7 ?bs 2 = Inr bs'"
    and len: "length bs' = length ?bs"
    and fields: "\<forall>k<length ?bs.
                 m (bs' ! k) = m (?bs ! k)
               \<and> r (bs' ! k) = r (?bs ! k) + 2 *\<^sub>R (v (?bs ! k) + (0.5 * 2) *\<^sub>R a (bs1 ! k))
               \<and> v (bs' ! k) = (v (?bs ! k) + (0.5 * 2) *\<^sub>R a (bs1 ! k)) + (0.5 * 2) *\<^sub>R a (bs' ! k)
               \<and> a (bs' ! k) = spec_acceleration 1 7 bs' k"
    and again: "accelerations 1 7 bs' = Inr bs'"
    by blast
  have p16: "(16::real) powr (3 / 2) = 64"
    using powr_three_halves [of 16] by simp
  have "bs1 = set_acc ?bs (spec_acceleration 1 7 ?bs)"
    using run1 accelerations_closed [OF pos, of 1 ?bs] by simp
  then have a0: "a (bs1 ! 0) = spec_acceleration 1 7 ?bs 0"
    and a1: "a (bs1 ! 1) = spec_acceleration 1 7 ?bs 1"
    by simp_all
  have s0: "spec_acceleration 1 7 ?bs 0 = Vec2 (9 / 64) 0"
    using p16
    by (simp add: spec_acceleration_def spec_force_def norm_sq_def minus_vec2_def
        plus_vec2_def scaleR_vec2_def zero_vec2_def)
  have s1: "spec_acceleration 1 7 ?bs 1 = Vec2 (- (3 / 64)) 0"
    using p16
    by (simp add: spec_acceleration_def spec_force_def norm_sq_def minus_vec2_def
        plus_vec2_def scaleR_vec2_def zero_vec2_def)
  have "r (bs' ! 0) = r (?bs ! 0) + 2 *\<^sub>R (v (?bs ! 0) + (0.5 * 2) *\<^sub>R a (bs1 ! 0))"
    and "r (bs' ! 1) = r (?bs ! 1) + 2 *\<^sub>R (v (?bs ! 1) + (0.5 * 2) *\<^sub>R a (bs1 ! 1))"
    using fields by simp_all
  then have "r (bs' ! 0) = Vec2 (9 / 32) 2" and "r (bs' ! 1) = Vec2 (93 / 32) 0"
    unfolding a0 a1 s0 s1 by (simp_all add: plus_vec2_def scaleR_vec2_def)
  moreover have "length bs' = 2"
    using len by simp
  ultimately show ?thesis
    using pos same step again by blast
qed

section \<open>Claims about what is preserved\<close>

text \<open>
  C7. No operation writes a mass: whenever a sequence of calls of \<^verbatim>\<open>accelerations\<close>,
  \<^verbatim>\<open>step_verlet\<close> and \<^verbatim>\<open>to_com_frame\<close>, in any order, returns, the list of the
  masses and the total mass are those of the initial system. With a positive softening
  constant and a non-empty system every such sequence does return.
\<close>

theorem C7_mass_never_written:
  "(\<forall>bs'. run_operations G EPS2 ops bodies = Inr bs' \<longrightarrow>
       map m bs' = map m bodies \<and> total_mass bs' = total_mass bodies)
   \<and> (0 < EPS2 \<and> bodies \<noteq> [] \<longrightarrow> (\<exists>bs'. run_operations G EPS2 ops bodies = Inr bs'))"
proof (intro conjI allI impI)
  fix bs'
  assume run: "run_operations G EPS2 ops bodies = Inr bs'"
  then show "map m bs' = map m bodies"
    by (rule run_operations_mass)
  then show "total_mass bs' = total_mass bodies"
    by (simp only: total_mass_map_m)
next
  assume "0 < EPS2 \<and> bodies \<noteq> []"
  then show "\<exists>bs'. run_operations G EPS2 ops bodies = Inr bs'"
    using run_operations_returns by blast
qed

theorem C7_mass_never_written_witness:
  "0 < (7::real)
   \<and> [\<lparr>r = Vec2 0 0, v = Vec2 0 1, m = 1, a = Vec2 5 5\<rparr>,
       \<lparr>r = Vec2 3 0, v = Vec2 0 0, m = 3, a = Vec2 8 9\<rparr>] \<noteq> []
   \<and> (\<exists>bs'. run_operations 1 7 [ToComFrame, Step 2, Accelerations, Step 1]
               [\<lparr>r = Vec2 0 0, v = Vec2 0 1, m = 1, a = Vec2 5 5\<rparr>,
                \<lparr>r = Vec2 3 0, v = Vec2 0 0, m = 3, a = Vec2 8 9\<rparr>] = Inr bs'
         \<and> map m bs' = [1, 3] \<and> total_mass bs' = 4)"
proof -
  let ?bs = "[\<lparr>r = Vec2 0 0, v = Vec2 0 1, m = 1, a = Vec2 5 5\<rparr>,
              \<lparr>r = Vec2 3 0, v = Vec2 0 0, m = 3, a = Vec2 8 9\<rparr>]"
  let ?ops = "[ToComFrame, Step 2, Accelerations, Step 1]"
  note inst = C7_mass_never_written [of 1 7 ?ops ?bs]
  have pre: "0 < (7::real) \<and> ?bs \<noteq> []"
    by simp
  with inst obtain bs' where run: "run_operations 1 7 ?ops ?bs = Inr bs'"
    by blast
  with inst have "map m bs' = map m ?bs" and "total_mass bs' = total_mass ?bs"
    by blast+
  then have masses: "map m bs' = [1, 3]" and total: "total_mass bs' = 4"
    by (simp_all add: total_mass_def)
  from pre have p1: "0 < (7::real)" and p2: "?bs \<noteq> []"
    by simp_all
  show ?thesis
    by (intro conjI exI [of _ bs']) (fact p1 p2 run masses total)+
qed

text \<open>
  C10. For a non-empty system with positive total mass, \<^verbatim>\<open>to_com_frame\<close> returns a
  system of the same length in which every difference of two positions and every
  difference of two velocities is what it was, and on which \<^verbatim>\<open>accelerations\<close> computes
  the same accelerations as on the original system (and raises exactly when it raises on
  the original).
\<close>

theorem C10_com_frame_keeps_differences:
  assumes "bodies \<noteq> []" and "0 < total_mass bodies"
  shows "\<exists>bs'. to_com_frame bodies = Inr bs'
           \<and> length bs' = length bodies
           \<and> (\<forall>i<length bodies. \<forall>j<length bodies.
                 r (bs' ! j) - r (bs' ! i) = r (bodies ! j) - r (bodies ! i)
               \<and> v (bs' ! j) - v (bs' ! i) = v (bodies ! j) - v (bodies ! i))
           \<and> map_result (map a) (accelerations G EPS2 bs')
               = map_result (map a) (accelerations G EPS2 bodies)"
proof -
  let ?p = "r_com bodies" and ?q = "v_com bodies"
  let ?bs' = "map (shift ?p ?q) bodies"
  have run: "to_com_frame bodies = Inr ?bs'"
    using to_com_frame_eq [OF assms(1)] by (simp add: shift_def)
  have len: "length ?bs' = length bodies"
    by simp
  have diffs: "\<forall>i<length bodies. \<forall>j<length bodies.
                 r (?bs' ! j) - r (?bs' ! i) = r (bodies ! j) - r (bodies ! i)
               \<and> v (?bs' ! j) - v (?bs' ! i) = v (bodies ! j) - v (bodies ! i)"
    by (simp add: shift_def)
  have "map a (map (shift ?p ?q) t) = map a t" for t
    by (simp add: shift_def comp_def)
  then have acc: "map_result (map a) (accelerations G EPS2 ?bs')
               = map_result (map a) (accelerations G EPS2 bodies)"
    by (cases "accelerations G EPS2 bodies") (simp_all add: accelerations_shift)
  from run len diffs acc show ?thesis
    by blast
qed

theorem C10_com_frame_keeps_differences_witness:
  "[\<lparr>r = Vec2 1 0, v = Vec2 0 1, m = 1, a = Vec2 0 0\<rparr>,
        \<lparr>r = Vec2 (-1) 2, v = Vec2 0 0, m = 3, a = Vec2 0 0\<rparr>] \<noteq> [] \<and> 0 < total_mass [\<lparr>r = Vec2 1 0, v = Vec2 0 1, m = 1, a = Vec2 0 0\<rparr>,
        \<lparr>r = Vec2 (-1) 2, v = Vec2 0 0, m = 3, a = Vec2 0 0\<rparr>]
   \<and> (\<exists>bs'. to_com_frame [\<lparr>r = Vec2 1 0, v = Vec2 0 1, m = 1, a = Vec2 0 0\<rparr>,
         \<lparr>r = Vec2 (-1) 2, v = Vec2 0 0, m = 3, a = Vec2 0 0\<rparr>] = Inr bs'
         \<and> r (bs' ! 1) - r (bs' ! 0) = Vec2 (- 2) 2
         \<and> v (bs' ! 1) - v (bs' ! 0) = Vec2 0 (- 1)
         \<and> map_result (map a) (accelerations 1 7 bs')
             = map_result (map a) (accelerations 1 7 [\<lparr>r = Vec2 1 0, v = Vec2 0 1, m = 1, a = Vec2 0 0\<rparr>,
                   \<lparr>r = Vec2 (-1) 2, v = Vec2 0 0, m = 3, a = Vec2 0 0\<rparr>]))"
proof -
  let ?bs = "[\<lparr>r = Vec2 1 0, v = Vec2 0 1, m = 1, a = Vec2 0 0\<rparr>,
        \<lparr>r = Vec2 (-1) 2, v = Vec2 0 0, m = 3, a = Vec2 0 0\<rparr>]"
  have ne: "?bs \<noteq> []" and pos: "0 < total_mass ?bs"
    by (simp_all add: total_mass_def)
  from C10_com_frame_keeps_differences [OF ne pos, of 1 7]
  obtain bs' where run: "to_com_frame ?bs = Inr bs'"
    and diffs: "\<forall>i<length ?bs. \<forall>j<length ?bs.
                 r (bs' ! j) - r (bs' ! i) = r (?bs ! j) - r (?bs ! i)
               \<and> v (bs' ! j) - v (bs' ! i) = v (?bs ! j) - v (?bs ! i)"
    and acc: "map_result (map a) (accelerations 1 7 bs')
               = map_result (map a) (accelerations 1 7 ?bs)"
    by blast
  from diffs have "r (bs' ! 1) - r (bs' ! 0) = r (?bs ! 1) - r (?bs ! 0)"
    and "v (bs' ! 1) - v (bs' ! 0) = v (?bs ! 1) - v (?bs ! 0)"
    by simp_all
  then have dr: "r (bs' ! 1) - r (bs' ! 0) = Vec2 (- 2) 2"
    and dv: "v (bs' ! 1) - v (bs' ! 0) = Vec2 0 (- 1)"
    by (simp_all add: minus_vec2_def)
  show ?thesis
    by (intro conjI exI [of _ bs']) (fact ne pos run dr dv acc)+
qed

text \<open>
  C4. With a positive softening constant and positive masses, one call of \<^verbatim>\<open>step_verlet\<close>
  returns a system with the same total linear momentum as its input: the pair forces of
  the force evaluator cancel in the mass-weighted sum. Consequently, for a non-empty
  system, after \<^verbatim>\<open>to_com_frame\<close> the total momentum is zero and it is still zero after
  any sequence of steps, whatever their time increments.
\<close>

theorem C4_momentum_conserved:
  assumes "0 < EPS2" and "\<forall>b\<in>set bodies. 0 < m b"
  shows "(\<exists>bs'. step_verlet G EPS2 bodies dt = Inr bs' \<and> momentum bs' = momentum bodies)
       \<and> (bodies \<noteq> [] \<longrightarrow>
            (\<exists>bs0 bs'. to_com_frame bodies = Inr bs0 \<and> momentum bs0 = 0
               \<and> run_operations G EPS2 (map Step dts) bs0 = Inr bs' \<and> momentum bs' = 0))"
proof (intro conjI impI)
  show "\<exists>bs'. step_verlet G EPS2 bodies dt = Inr bs' \<and> momentum bs' = momentum bodies"
    using assms by (rule step_verlet_momentum)
next
  assume ne: "bodies \<noteq> []"
  let ?bs0 = "map (\<lambda>b. b\<lparr>r := r b - r_com bodies, v := v b - v_com bodies\<rparr>) bodies"
  have nz: "total_mass bodies \<noteq> 0"
    using total_mass_pos [OF ne assms(2)] by simp
  have run0: "to_com_frame bodies = Inr ?bs0"
    using ne by (rule to_com_frame_eq)
  have mom0: "momentum ?bs0 = 0"
    using nz by (rule momentum_com_zero)
  have "map m ?bs0 = map m bodies"
    using run0 by (rule to_com_frame_mass)
  then have pos0: "\<forall>b\<in>set ?bs0. 0 < m b"
    using assms(2) by (rule mass_positive_transfer)
  from steps_momentum [OF assms(1) pos0, of G dts]
  obtain bs' where "run_operations G EPS2 (map Step dts) ?bs0 = Inr bs'"
    and "momentum bs' = momentum ?bs0"
    by (elim exE conjE)
  with run0 mom0
  show "\<exists>bs0 bs'. to_com_frame bodies = Inr bs0 \<and> momentum bs0 = 0
               \<and> run_operations G EPS2 (map Step dts) bs0 = Inr bs' \<and> momentum bs' = 0"
    by (intro exI [of _ ?bs0] exI [of _ bs']) (simp only: simp_thms)
qed

theorem C4_momentum_conserved_witness:
  "0 < (7::real)
   \<and> [\<lparr>r = Vec2 0 0, v = Vec2 0 1, m = 1, a = Vec2 5 5\<rparr>,
       \<lparr>r = Vec2 3 0, v = Vec2 0 0, m = 3, a = Vec2 8 9\<rparr>] \<noteq> []
   \<and> (\<exists>bs'. step_verlet 1 7 [\<lparr>r = Vec2 0 0, v = Vec2 0 1, m = 1, a = Vec2 5 5\<rparr>,
                               \<lparr>r = Vec2 3 0, v = Vec2 0 0, m = 3, a = Vec2 8 9\<rparr>] 2 = Inr bs'
         \<and> momentum bs' = Vec2 0 1)
   \<and> (\<exists>bs0 bs'. to_com_frame [\<lparr>r = Vec2 0 0, v = Vec2 0 1, m = 1, a = Vec2 5 5\<rparr>,
                                 \<lparr>r = Vec2 3 0, v = Vec2 0 0, m = 3, a = Vec2 8 9\<rparr>] = Inr bs0
         \<and> run_operations 1 7 (map Step [2, 1, 1 / 2]) bs0 = Inr bs' \<and> momentum bs' = 0)"
proof -
  let ?bs = "[\<lparr>r = Vec2 0 0, v = Vec2 0 1, m = 1, a = Vec2 5 5\<rparr>,
              \<lparr>r = Vec2 3 0, v = Vec2 0 0, m = 3, a = Vec2 8 9\<rparr>]"
  have eps: "0 < (7::real)" and pos: "\<forall>b\<in>set ?bs. 0 < m b" and ne: "?bs \<noteq> []"
    by simp_all
  note inst = C4_momentum_conserved [OF eps pos, of 1 2 "[2, 1, 1 / 2]"]
  from inst obtain bs1 where s1: "step_verlet 1 7 ?bs 2 = Inr bs1"
    and m1: "momentum bs1 = momentum ?bs"
    by (elim conjE exE)
  have "momentum ?bs = Vec2 0 1"
    by (simp add: momentum_def scaleR_vec2_def plus_vec2_def zero_vec2_def)
  with m1 have m1': "momentum bs1 = Vec2 0 1"
    by simp
  from inst ne obtain bs0 bs' where "to_com_frame ?bs = Inr bs0"
    and "run_operations 1 7 (map Step [2, 1, 1 / 2]) bs0 = Inr bs'"
    and "momentum bs' = 0"
    by (elim conjE exE impE) assumption
  with eps ne s1 m1' show ?thesis
    by (intro conjI exI [of _ bs1] exI [of _ bs0] exI [of _ bs']) assumption+
qed

end
